theory Spec2Isabelle
  imports Complex_Main
begin

section \<open>Highlight detection of CreatorAssistant (detect.py)\<close>

text \<open>
  The development embeds the detection core of \<^verbatim>\<open>detect.py\<close>: score normalisation,
  audio-energy downsampling, peak selection with non-maximum suppression, the mapping of
  logged kill events onto the recording's timeline, and the orchestrator that chooses between
  the two. Python floats and numpy arrays of floats are modelled as \<open>real\<close> and
  \<open>real list\<close> (rounding, infinities and NaN are outside the model); Python integers are
  \<open>int\<close>, lengths and indices are \<open>nat\<close>. An exception is a value \<open>Inl e\<close> of a sum
  type. The parsed event log is an untyped JSON value, so that every lookup that raises on a
  value of the wrong shape raises in the model. Whatever the code obtains from the file
  system, from FFmpeg, librosa or OpenCV is read from a record \<open>world\<close> of functions.
\<close>

subsection \<open>Python and numpy primitives\<close>

datatype error =
  FileNotFoundError | ZeroDivisionError | ValueError | CalledProcessError
  | IndexError | AttributeError | TypeError

text \<open>Sequencing of two steps that may raise: the first exception ends the computation.\<close>

definition then_do :: "error + 'a \<Rightarrow> ('a \<Rightarrow> error + 'b) \<Rightarrow> error + 'b" where
  "then_do r f = (case r of Inl e \<Rightarrow> Inl e | Inr x \<Rightarrow> f x)"

text \<open>A loop that maps a step over a list and stops at the first exception.\<close>

fun traverse :: "('a \<Rightarrow> error + 'b) \<Rightarrow> 'a list \<Rightarrow> error + 'b list" where
  "traverse f [] = Inr []"
| "traverse f (x # xs) = then_do (f x) (\<lambda>y. then_do (traverse f xs) (\<lambda>ys. Inr (y # ys)))"

text \<open>\<^verbatim>\<open>int(x)\<close> on a float truncates towards zero.\<close>

definition py_int :: "real \<Rightarrow> int" where
  "py_int x = (if 0 \<le> x then \<lfloor>x\<rfloor> else \<lceil>x\<rceil>)"

text \<open>\<^verbatim>\<open>d.get(key, default)\<close>: an absent key is \<open>None\<close>.\<close>

definition get_or :: "'a option \<Rightarrow> 'a \<Rightarrow> 'a" where
  "get_or v d = (case v of None \<Rightarrow> d | Some x \<Rightarrow> x)"

text \<open>\<^verbatim>\<open>a or d\<close> for an optional string: \<open>None\<close> and the empty string are falsy.\<close>

definition or_str :: "string option \<Rightarrow> string \<Rightarrow> string" where
  "or_str a d = (case a of None \<Rightarrow> d | Some s \<Rightarrow> if s = [] then d else s)"

text \<open>\<^verbatim>\<open>xs[a:b]\<close> for indices \<open>0 \<le> a\<close>, \<open>0 \<le> b\<close>.\<close>

definition slice :: "'a list \<Rightarrow> nat \<Rightarrow> nat \<Rightarrow> 'a list" where
  "slice xs a b = take (b - a) (drop a xs)"

text \<open>\<^verbatim>\<open>np.max\<close>, \<^verbatim>\<open>np.min\<close> (reductions, called on non-empty arrays only) and \<^verbatim>\<open>np.mean\<close>.\<close>

definition np_max :: "real list \<Rightarrow> real" where
  "np_max xs = fold max (tl xs) (hd xs)"

definition np_min :: "real list \<Rightarrow> real" where
  "np_min xs = fold min (tl xs) (hd xs)"

definition np_mean :: "real list \<Rightarrow> real" where
  "np_mean xs = sum_list xs / real (length xs)"

text \<open>
  \<^verbatim>\<open>np.percentile(a, q)\<close> with numpy's default linear interpolation: \<open>q\<close> outside
  \<open>[0, 100]\<close> raises \<^verbatim>\<open>ValueError\<close>; otherwise the value at the fractional position
  \<open>(n - 1) * q / 100\<close> of the sorted array. On an empty array the lookup in the sorted
  array raises \<^verbatim>\<open>IndexError\<close>.
\<close>

definition percentile :: "real list \<Rightarrow> real \<Rightarrow> error + real" where
  "percentile a q =
     (if q < 0 \<or> 100 < q then Inl ValueError
      else if a = [] then Inl IndexError
      else
        let s = sort a;
            pos = real (length a - 1) * (q / 100);
            lo = nat \<lfloor>pos\<rfloor>;
            hi = min (lo + 1) (length a - 1)
        in Inr (s ! lo + (s ! hi - s ! lo) * (pos - real lo)))"

text \<open>
  \<^verbatim>\<open>np.pad(xs, (0, k), mode="edge")\<close> repeats the last value \<open>k\<close> times and raises
  \<^verbatim>\<open>ValueError\<close> when asked to extend an empty array.
\<close>

definition pad_edge :: "real list \<Rightarrow> nat \<Rightarrow> error + real list" where
  "pad_edge xs k =
     (if xs = [] \<and> 0 < k then Inl ValueError else Inr (xs @ replicate k (last xs)))"

subsection \<open>JSON values as Python sees them\<close>

text \<open>
  What \<^verbatim>\<open>json.load\<close> returns: \<^verbatim>\<open>None\<close>, a bool, a number, a string, a list or a
  dictionary (the list of its items).
\<close>

datatype json =
  JNull | JBool bool | JNum real | JStr string | JArr "json list" | JObj "(string \<times> json) list"

text \<open>
  \<^verbatim>\<open>d.get(key, dflt)\<close>: only a dictionary has the method, on anything else the call
  raises \<^verbatim>\<open>AttributeError\<close>. The default is returned for an absent key only; a key that
  is present with the value null yields \<^verbatim>\<open>None\<close>.
\<close>

definition dict_get :: "json \<Rightarrow> string \<Rightarrow> json \<Rightarrow> error + json" where
  "dict_get d key dflt =
     (case d of
        JObj items \<Rightarrow> Inr (case map_of items key of None \<Rightarrow> dflt | Some v \<Rightarrow> v)
      | _ \<Rightarrow> Inl AttributeError)"

text \<open>
  \<^verbatim>\<open>for e in v\<close>: a list yields its elements, a dictionary its keys, a string its
  characters; \<^verbatim>\<open>None\<close>, a bool and a number are not iterable.
\<close>

definition py_iter :: "json \<Rightarrow> error + json list" where
  "py_iter v =
     (case v of
        JArr xs \<Rightarrow> Inr xs
      | JObj items \<Rightarrow> Inr (map (\<lambda>item. JStr (fst item)) items)
      | JStr s \<Rightarrow> Inr (map (\<lambda>c. JStr [c]) s)
      | _ \<Rightarrow> Inl TypeError)"

text \<open>Truthiness, as \<^verbatim>\<open>or\<close> and \<^verbatim>\<open>if\<close> test it.\<close>

definition truthy :: "json \<Rightarrow> bool" where
  "truthy v =
     (case v of
        JNull \<Rightarrow> False
      | JBool b \<Rightarrow> b
      | JNum x \<Rightarrow> x \<noteq> 0
      | JStr s \<Rightarrow> s \<noteq> []
      | JArr xs \<Rightarrow> xs \<noteq> []
      | JObj items \<Rightarrow> items \<noteq> [])"

text \<open>The value of a number in arithmetic; a bool counts as \<open>1\<close> or \<open>0\<close>.\<close>

definition as_number :: "json \<Rightarrow> real option" where
  "as_number v =
     (case v of
        JNum x \<Rightarrow> Some x
      | JBool b \<Rightarrow> Some (if b then 1 else 0)
      | _ \<Rightarrow> None)"

text \<open>
  \<^verbatim>\<open>x + y\<close>: the sum of two numbers, the concatenation of two strings or of two lists,
  \<^verbatim>\<open>TypeError\<close> otherwise.
\<close>

definition py_add :: "json \<Rightarrow> json \<Rightarrow> error + json" where
  "py_add x y =
     (case (as_number x, as_number y) of
        (Some a, Some b) \<Rightarrow> Inr (JNum (a + b))
      | _ \<Rightarrow>
          (case (x, y) of
             (JStr s, JStr t) \<Rightarrow> Inr (JStr (s @ t))
           | (JArr s, JArr t) \<Rightarrow> Inr (JArr (s @ t))
           | _ \<Rightarrow> Inl TypeError))"

subsection \<open>Score normaliser and audio-energy downsampling\<close>

definition normalize_scores :: "real list \<Rightarrow> real list" where
  "normalize_scores scores =
     (if length scores = 0 \<or> np_max scores = np_min scores
      then replicate (length scores) 0
      else map (\<lambda>s. (s - np_min scores) / (np_max scores - np_min scores)) scores)"

text \<open>
  \<open>compute_audio_energy\<close> from the hop-level RMS series on (the array that
  \<^verbatim>\<open>librosa.feature.rms\<close> returns for 0.5 s hops). The divisor
  \<^verbatim>\<open>int(window_seconds * 2)\<close> is not guarded: when it is \<open>0\<close> Python raises
  \<^verbatim>\<open>ZeroDivisionError\<close>.
\<close>

definition compute_audio_energy :: "real list \<Rightarrow> real \<Rightarrow> error + real list" where
  "compute_audio_energy rms window_seconds =
     (let hops_per_window = py_int (window_seconds * 2) in
      if hops_per_window = 0 then Inl ZeroDivisionError
      else
        let n_windows = nat (max 1 (int (length rms) div hops_per_window)) in
        if n_windows \<ge> length rms then Inr rms
        else Inr (map (\<lambda>i. np_mean (slice rms (i * length rms div n_windows)
                                              ((i + 1) * length rms div n_windows)))
                      [0 ..< n_windows]))"

subsection \<open>Highlight candidates and the greedy spacing loop\<close>

text \<open>
  A candidate is the dictionary \<^verbatim>\<open>{"start", "end", "score"}\<close>, with the extra key
  \<^verbatim>\<open>"source"\<close> on the event path only.
\<close>

record candidate =
  start :: real
  end_sec :: real
  score :: real
  source :: "string option"

text \<open>
  Both selectors end with the same loop over the sorted candidates: stop once
  \<open>max_clips\<close> are selected, skip a candidate whose start is closer than
  \<open>min_between\<close> to a selected one, append it otherwise.
\<close>

fun nms_loop :: "real \<Rightarrow> int \<Rightarrow> candidate list \<Rightarrow> candidate list \<Rightarrow> candidate list" where
  "nms_loop min_between max_clips selected [] = selected"
| "nms_loop min_between max_clips selected (c # cs) =
     (if int (length selected) \<ge> max_clips then selected
      else if list_ex (\<lambda>s. \<bar>start c - start s\<bar> < min_between) selected
      then nms_loop min_between max_clips selected cs
      else nms_loop min_between max_clips (selected @ [c]) cs)"

subsection \<open>Signal path: peaks of the combined series\<close>

text \<open>
  The three \<^verbatim>\<open>continue\<close> guards of the peak loop at index \<open>i\<close>: local maximum,
  threshold and minimum score, prominence.
\<close>

definition is_peak :: "real list \<Rightarrow> real \<Rightarrow> real \<Rightarrow> real \<Rightarrow> nat \<Rightarrow> bool" where
  "is_peak combined threshold min_score min_prominence i =
     (let sc = combined ! i in
      if sc < combined ! (i - 1) \<or> sc < combined ! (i + 1) then False
      else if sc < threshold \<or> sc < min_score then False
      else
        let valley = min (combined ! (i - 1)) (combined ! (i + 1)) in
        if sc - valley < min_prominence then False else True)"

text \<open>The indices of \<^verbatim>\<open>range(1, len(combined) - 1)\<close> that pass the guards.\<close>

definition peak_indices :: "real list \<Rightarrow> real \<Rightarrow> real \<Rightarrow> real \<Rightarrow> nat list" where
  "peak_indices combined threshold min_score min_prominence =
     filter (is_peak combined threshold min_score min_prominence) [1 ..< length combined - 1]"

text \<open>The clip window of a peak; it is kept only when long enough.\<close>

definition clip_window ::
  "real \<Rightarrow> real \<Rightarrow> real \<Rightarrow> real \<Rightarrow> real \<Rightarrow> real list \<Rightarrow> nat \<Rightarrow> candidate option" where
  "clip_window window_sec padding_before clip_duration min_clip_length duration combined i =
     (let start_sec = max 0 (real i * window_sec - padding_before);
          end_sec' = min duration (start_sec + clip_duration)
      in if end_sec' - start_sec \<ge> min_clip_length
         then Some \<lparr>start = start_sec, end_sec = end_sec', score = combined ! i, source = None\<rparr>
         else None)"

text \<open>The selection parameters read from the configuration.\<close>

record selection =
  sensitivity :: real
  min_score :: real
  min_prominence :: real
  min_between :: real
  max_clips :: int
  window_sec :: real
  clip_duration :: real
  padding_before :: real
  min_clip_length :: real

text \<open>
  Peak selection of \<open>detect_highlights\<close>: adaptive threshold, peak loop, sort by
  descending score (Python's sort is stable, also with \<^verbatim>\<open>reverse=True\<close>), greedy
  spacing loop, sort by start.
\<close>

definition select_peaks :: "selection \<Rightarrow> real \<Rightarrow> real list \<Rightarrow> error + candidate list" where
  "select_peaks p duration combined =
     (case percentile combined (100 - sensitivity p * 40) of
        Inl e \<Rightarrow> Inl e
      | Inr threshold \<Rightarrow>
          let candidates =
                List.map_filter
                  (clip_window (window_sec p) (padding_before p) (clip_duration p)
                     (min_clip_length p) duration combined)
                  (peak_indices combined threshold (min_score p) (min_prominence p));
              sorted_candidates = sort_key (\<lambda>x. - score x) candidates;
              selected = nms_loop (min_between p) (max_clips p) [] sorted_candidates
          in Inr (sort_key start selected))"

subsection \<open>Configuration and the outside world\<close>

text \<open>
  The configuration is the nested mapping of \<^verbatim>\<open>config.yaml\<close>, one optional field per
  key that \<^verbatim>\<open>detect.py\<close> reads (prefix \<open>ge\<close> for \<^verbatim>\<open>game_events\<close>, \<open>clip\<close> for
  \<^verbatim>\<open>clip\<close>, \<open>det\<close> for \<^verbatim>\<open>detection\<close>); the defaults are applied where the code
  applies them.
\<close>

record config =
  ge_enabled :: "bool option"
  ge_file :: "string option"
  ge_prefer_events_over_ai :: "bool option"
  ge_filter_my_kills_only :: "bool option"
  ge_player_summoner_name :: "string option"
  ge_recording_start_offset :: "real option"
  clip_duration_seconds :: "real option"
  clip_padding_before :: "real option"
  clip_min_clip_length :: "real option"
  det_audio_weight :: "real option"
  det_motion_weight :: "real option"
  det_sensitivity :: "real option"
  det_min_score :: "real option"
  det_min_prominence :: "real option"
  det_min_seconds_between_clips :: "real option"
  det_max_clips_per_video :: "int option"
  det_window_seconds :: "real option"

text \<open>
  What the code asks of its environment: \<open>load_json\<close> is \<^verbatim>\<open>open\<close> followed by
  \<^verbatim>\<open>json.load\<close> (\<open>None\<close> when either raises, any JSON value otherwise),
  \<open>str_strip\<close> and \<open>str_lower\<close> are Python's Unicode-aware \<^verbatim>\<open>str.strip\<close> and
  \<^verbatim>\<open>str.lower\<close>, \<open>getctime\<close> is
  \<^verbatim>\<open>os.path.getctime\<close> (\<open>None\<close> for \<^verbatim>\<open>OSError\<close>), the path functions are those
  of \<^verbatim>\<open>pathlib\<close>, \<open>ffmpeg_bin\<close> is the result of \<^verbatim>\<open>_get_ffmpeg_bin\<close> (\<open>None\<close>
  when it raises \<^verbatim>\<open>FileNotFoundError\<close>), \<open>get_video_info\<close> gives duration and frame
  rate, \<open>audio_rms\<close> is \<^verbatim>\<open>extract_audio\<close> followed by \<^verbatim>\<open>librosa.feature.rms\<close>,
  and \<open>compute_motion_scores\<close> is the motion series that the function of that name
  computes from the frames it decodes with OpenCV. That series is taken as given: nothing
  below depends on how the frame differences are averaged.
\<close>

record world =
  path_exists :: "string \<Rightarrow> bool"
  load_json :: "string \<Rightarrow> json option"
  str_strip :: "string \<Rightarrow> string"
  str_lower :: "string \<Rightarrow> string"
  getctime :: "string \<Rightarrow> real option"
  is_absolute :: "string \<Rightarrow> bool"
  path_name :: "string \<Rightarrow> string"
  path_parent :: "string \<Rightarrow> string"
  path_join :: "string \<Rightarrow> string \<Rightarrow> string"
  path_resolve :: "string \<Rightarrow> string"
  script_dir :: string
  ffmpeg_bin :: "(string \<times> string) option"
  get_video_info :: "string \<Rightarrow> real \<times> real"
  audio_rms :: "string \<Rightarrow> error + real list"
  compute_motion_scores :: "string \<Rightarrow> real \<Rightarrow> real \<Rightarrow> real \<Rightarrow> real list"

subsection \<open>Event path\<close>

text \<open>
  The list comprehension that keeps the kill events: \<^verbatim>\<open>e.get("type")\<close> is called on
  every element.
\<close>

fun select_kills :: "json list \<Rightarrow> error + json list" where
  "select_kills [] = Inr []"
| "select_kills (e # es) =
     then_do (dict_get e ''type'' JNull) (\<lambda>t.
     then_do (select_kills es) (\<lambda>kills.
       Inr (if t = JStr ''ChampionKill'' then e # kills else kills)))"

text \<open>
  The killer's name of a kill event, stripped and lower-cased. The three lookups are joined
  by \<^verbatim>\<open>or\<close>, so a later one runs only when the earlier ones are falsy; the methods
  \<^verbatim>\<open>strip\<close> and \<^verbatim>\<open>lower\<close> exist on a string only.
\<close>

definition killer_of :: "world \<Rightarrow> json \<Rightarrow> error + string" where
  "killer_of w k =
     then_do (dict_get k ''killer_name'' JNull) (\<lambda>first.
     then_do (if truthy first then Inr first
              else then_do (dict_get k ''data'' (JObj [])) (\<lambda>d. dict_get d ''KillerName'' JNull)) (\<lambda>second.
     then_do (if truthy second then Inr second
              else then_do (dict_get k ''data'' (JObj [])) (\<lambda>d. dict_get d ''killerName'' JNull)) (\<lambda>third.
       (case (if truthy third then third else JStr []) of
          JStr s \<Rightarrow> Inr (str_lower w (str_strip w s))
        | _ \<Rightarrow> Inl AttributeError))))"

text \<open>The loop that keeps the kills of the configured player.\<close>

fun filter_by_killer :: "world \<Rightarrow> string \<Rightarrow> json list \<Rightarrow> error + json list" where
  "filter_by_killer w player_name [] = Inr []"
| "filter_by_killer w player_name (k # ks) =
     then_do (killer_of w k) (\<lambda>killer.
     then_do (filter_by_killer w player_name ks) (\<lambda>filtered.
       Inr (if killer = player_name then k # filtered else filtered)))"

text \<open>
  The body of the loop that turns a kill into a clip window. Without a wall-clock time
  (absent or null) the game time, \<open>0\<close> when absent, is added to the session start.
\<close>

definition event_candidate :: "json \<Rightarrow> real \<Rightarrow> real \<Rightarrow> real \<Rightarrow> real \<Rightarrow> json \<Rightarrow> error + candidate" where
  "event_candidate data video_start_time offset padding clip_len k =
     then_do (dict_get k ''wall_clock'' JNull) (\<lambda>logged.
     then_do (if logged = JNull
              then then_do (dict_get k ''game_time'' (JNum 0)) (\<lambda>game_time.
                   then_do (dict_get data ''session_start'' JNull) (\<lambda>session_start.
                     py_add game_time (if truthy session_start then session_start else JNum 0)))
              else Inr logged) (\<lambda>wall_clock.
       (case as_number wall_clock of
          None \<Rightarrow> Inl TypeError
        | Some t \<Rightarrow>
            let video_sec = t - video_start_time + offset;
                start_sec = max 0 (video_sec - padding);
                end_sec' = start_sec + clip_len
            in Inr \<lparr>start = start_sec, end_sec = end_sec', score = 1,
                    source = Some ''game_events''\<rparr>)))"

text \<open>
  The selector returns \<open>Inr None\<close> for Python's \<^verbatim>\<open>None\<close> (no usable events),
  \<open>Inr (Some sel)\<close> for a list, and \<open>Inl e\<close> when it raises: only \<^verbatim>\<open>json.load\<close> sits
  inside the \<^verbatim>\<open>try\<close>.
\<close>

definition load_highlights_from_events ::
  "world \<Rightarrow> string \<Rightarrow> string \<Rightarrow> config \<Rightarrow> error + candidate list option" where
  "load_highlights_from_events w events_path video_path config =
     (if \<not> path_exists w events_path then Inr None
      else case load_json w events_path of
        None \<Rightarrow> Inr None
      | Some data \<Rightarrow>
          then_do (dict_get data ''events'' (JArr [])) (\<lambda>events.
          then_do (py_iter events) (\<lambda>elements.
          then_do (select_kills elements) (\<lambda>kills.
          if kills = [] then Inr None
          else
            let player_name = str_lower w (str_strip w (or_str (ge_player_summoner_name config) []));
                filtering = (get_or (ge_filter_my_kills_only config) False \<and> player_name \<noteq> [])
            in
            then_do (if filtering then filter_by_killer w player_name kills else Inr kills) (\<lambda>kills'.
            if filtering \<and> kills' = [] then Inr None
            else
              let offset = get_or (ge_recording_start_offset config) 0;
                  clip_len = get_or (clip_duration_seconds config) 30;
                  padding = get_or (clip_padding_before config) 3;
                  min_gap = get_or (det_min_seconds_between_clips config) 120;
                  limit = get_or (det_max_clips_per_video config) 5;
                  video_start_time = get_or (getctime w video_path) 0
              in
              then_do (traverse (event_candidate data video_start_time offset padding clip_len) kills')
                (\<lambda>candidates. Inr (Some (nms_loop min_gap limit [] (sort_key start candidates)))))))))"

subsection \<open>Orchestrator\<close>

text \<open>
  What a run does besides returning: the lines it prints and the calls it makes to the media
  backend. A run yields the effects in order and either an exception or a value; an
  exception ends it.
\<close>

datatype effect = Print string | RunFFprobe string | RunFFmpeg string | OpenVideo string

type_synonym 'a run = "effect list \<times> (error + 'a)"

definition emit :: "effect \<Rightarrow> unit run" where
  "emit e = ([e], Inr ())"

definition lift :: "error + 'a \<Rightarrow> 'a run" where
  "lift r = ([], r)"

definition bind_run :: "'a run \<Rightarrow> ('a \<Rightarrow> 'b run) \<Rightarrow> 'b run" where
  "bind_run m f =
     (case snd m of
        Inl e \<Rightarrow> (fst m, Inl e)
      | Inr x \<Rightarrow> (fst m @ fst (f x), snd (f x)))"

definition selection_of :: "config \<Rightarrow> selection" where
  "selection_of config =
     \<lparr>sensitivity = get_or (det_sensitivity config) (1/2),
      min_score = get_or (det_min_score config) (6/10),
      min_prominence = get_or (det_min_prominence config) (15/100),
      min_between = get_or (det_min_seconds_between_clips config) 120,
      max_clips = get_or (det_max_clips_per_video config) 5,
      window_sec = get_or (det_window_seconds config) 4,
      clip_duration = get_or (clip_duration_seconds config) 30,
      padding_before = get_or (clip_padding_before config) 3,
      min_clip_length = get_or (clip_min_clip_length config) 15\<rparr>"

text \<open>
  The signal path of \<open>detect_highlights\<close>, from the lookup of the detection parameters to
  the returned list.
\<close>

definition signal_pipeline :: "world \<Rightarrow> string \<Rightarrow> config \<Rightarrow> candidate list run" where
  "signal_pipeline w video config =
     (let audio_weight = get_or (det_audio_weight config) (1/2);
          motion_weight = get_or (det_motion_weight config) (1/2);
          p = selection_of config;
          video_path = path_resolve w video
      in
      if \<not> path_exists w video_path then lift (Inl FileNotFoundError)
      else
        bind_run (lift (case ffmpeg_bin w of None \<Rightarrow> Inl FileNotFoundError | Some b \<Rightarrow> Inr b)) (\<lambda>bins.
        bind_run (emit (RunFFprobe video_path)) (\<lambda>_.
        let duration = fst (get_video_info w video_path);
            fps = snd (get_video_info w video_path)
        in
        bind_run (emit (Print ''  Extracting audio...'')) (\<lambda>_.
        bind_run (emit (RunFFmpeg video_path)) (\<lambda>_.
        bind_run (lift (audio_rms w video_path)) (\<lambda>rms.
        bind_run (lift (compute_audio_energy rms (window_sec p))) (\<lambda>audio_energy.
        let audio_norm = normalize_scores audio_energy in
        bind_run (lift (if window_sec p = 0 then Inl ZeroDivisionError
                        else Inr (max (length audio_norm) (nat (py_int (duration / window_sec p)))))) (\<lambda>n_windows.
        bind_run (lift (if length audio_norm < n_windows
                        then pad_edge audio_norm (n_windows - length audio_norm)
                        else Inr audio_norm)) (\<lambda>audio_padded.
        bind_run (emit (Print ''  Analyzing motion...'')) (\<lambda>_.
        bind_run (emit (OpenVideo video_path)) (\<lambda>_.
        let motion_norm = normalize_scores (compute_motion_scores w video_path duration fps (window_sec p)) in
        bind_run (lift (if length motion_norm < n_windows
                        then pad_edge motion_norm (n_windows - length motion_norm)
                        else Inr motion_norm)) (\<lambda>motion_padded.
        let combined = map2 (\<lambda>a m. audio_weight * a + motion_weight * m)
                         (take n_windows audio_padded) (take n_windows motion_padded)
        in lift (select_peaks p duration combined)))))))))))))"

text \<open>Where \<open>detect_highlights\<close> looks for the events file.\<close>

definition resolve_events_path :: "world \<Rightarrow> string \<Rightarrow> config \<Rightarrow> string option \<Rightarrow> string" where
  "resolve_events_path w video_path config events_file =
     (let events_path = or_str events_file (get_or (ge_file config) ''game_events.json'') in
      if \<not> is_absolute w events_path then
        let in_script_dir = path_join w (script_dir w) (path_name w events_path);
            next_to_video = path_join w (path_parent w video_path) (path_name w events_path)
        in if path_exists w in_script_dir then in_script_dir
           else if path_exists w next_to_video then next_to_video
           else in_script_dir
      else events_path)"

definition detect_highlights :: "world \<Rightarrow> string \<Rightarrow> config \<Rightarrow> string option \<Rightarrow> candidate list run" where
  "detect_highlights w video_path config events_file =
     (if get_or (ge_enabled config) True then
        let events_path = resolve_events_path w video_path config events_file in
        if get_or (ge_prefer_events_over_ai config) True then
          (case load_highlights_from_events w events_path video_path config of
             Inl e \<Rightarrow> ([], Inl e)
           | Inr (Some (h # hs)) \<Rightarrow>
               ([Print ''  Using game events (kill timestamps from Live Client Data API)''], Inr (h # hs))
           | Inr _ \<Rightarrow>
               bind_run
                 (emit (Print (if path_exists w events_path
                               then ''  Events file found but no matching kills (check filter_my_kills_only / player_summoner_name)''
                               else ''  No game_events.json found - using AI detection'')))
                 (\<lambda>_. signal_pipeline w video_path config))
        else signal_pipeline w video_path config
      else signal_pipeline w video_path config)"

subsection \<open>Properties of candidate lists and a sample session\<close>

text \<open>
  A list is well spaced when the starts of any two of its entries are at least \<open>gap\<close>
  apart and it has at most \<open>limit\<close> entries (a negative limit admits the empty list only).
\<close>

definition well_spaced :: "real \<Rightarrow> int \<Rightarrow> candidate list \<Rightarrow> bool" where
  "well_spaced gap limit sel \<longleftrightarrow>
     (\<forall>i < length sel. \<forall>j < length sel. i \<noteq> j \<longrightarrow> \<not> \<bar>start (sel ! i) - start (sel ! j)\<bar> < gap)
     \<and> length sel \<le> nat limit"

text \<open>
  A sample session for concrete runs: a recording created at time \<open>1000\<close> with three kills
  logged at \<open>1005\<close>, \<open>1135\<close> and \<open>1265\<close>, a twelve-second video with three hops of audio,
  and the empty configuration, in which every key takes its default. The names in the sample
  are ASCII text, on which \<^verbatim>\<open>str.strip\<close> and \<^verbatim>\<open>str.lower\<close> are \<open>ascii_strip\<close> and
  \<open>ascii_lower\<close>.
\<close>

definition empty_config :: config where
  "empty_config =
     \<lparr>ge_enabled = None, ge_file = None, ge_prefer_events_over_ai = None,
      ge_filter_my_kills_only = None, ge_player_summoner_name = None,
      ge_recording_start_offset = None, clip_duration_seconds = None,
      clip_padding_before = None, clip_min_clip_length = None, det_audio_weight = None,
      det_motion_weight = None, det_sensitivity = None, det_min_score = None,
      det_min_prominence = None, det_min_seconds_between_clips = None,
      det_max_clips_per_video = None, det_window_seconds = None\<rparr>"

definition is_space :: "char \<Rightarrow> bool" where
  "is_space c = (let n = (of_char c :: nat) in (9 \<le> n \<and> n \<le> 13) \<or> (28 \<le> n \<and> n \<le> 32))"

definition ascii_strip :: "string \<Rightarrow> string" where
  "ascii_strip s = rev (dropWhile is_space (rev (dropWhile is_space s)))"

definition lower_char :: "char \<Rightarrow> char" where
  "lower_char c = (let n = (of_char c :: nat) in if 65 \<le> n \<and> n \<le> 90 then char_of (n + 32) else c)"

definition ascii_lower :: "string \<Rightarrow> string" where
  "ascii_lower s = map lower_char s"

definition sample_kill :: "real \<Rightarrow> string \<Rightarrow> json" where
  "sample_kill t name =
     JObj [(''type'', JStr ''ChampionKill''), (''game_time'', JNum (t - 940)),
           (''wall_clock'', JNum t), (''killer_name'', JStr name), (''victim_name'', JStr ''Lux''),
           (''data'', JObj [(''KillerName'', JStr name)])]"

definition sample_log :: json where
  "sample_log =
     JObj [(''session_start'', JNum 1000), (''game_start_time'', JNum 60),
           (''events'', JArr [sample_kill 1005 ''Ahri'', sample_kill 1135 ''Ahri'',
                             sample_kill 1265 ''Ahri'']),
           (''total_kills'', JNum 3)]"

definition sample_world :: world where
  "sample_world =
     \<lparr>path_exists = (\<lambda>p. p = ''/rec/game_events.json'' \<or> p = ''/rec/match.mp4''),
      load_json = (\<lambda>p. if p = ''/rec/game_events.json'' then Some sample_log else None),
      str_strip = ascii_strip,
      str_lower = ascii_lower,
      getctime = (\<lambda>p. if p = ''/rec/match.mp4'' then Some 1000 else None),
      is_absolute = (\<lambda>p. take 1 p = ''/''),
      path_name = (\<lambda>p. p),
      path_parent = (\<lambda>p. ''/rec''),
      path_join = (\<lambda>d n. d @ ''/'' @ n),
      path_resolve = (\<lambda>p. p),
      script_dir = ''/app'',
      ffmpeg_bin = Some (''ffmpeg'', ''ffprobe''),
      get_video_info = (\<lambda>p. (12, 30)),
      audio_rms = (\<lambda>p. Inr [1/10, 9/10, 1/10]),
      compute_motion_scores = (\<lambda>p duration fps window_seconds. [0])\<rparr>"

definition sample_clip :: "real \<Rightarrow> candidate" where
  "sample_clip t = \<lparr>start = t, end_sec = t + 30, score = 1, source = Some ''game_events''\<rparr>"

text \<open>
  The sample session with a single kill logged four seconds after the end of a video of the
  given duration.
\<close>

definition late_kill_world :: "real \<Rightarrow> world" where
  "late_kill_world duration =
     sample_world\<lparr>
       load_json := (\<lambda>p. Some (JObj [(''session_start'', JNum 1000),
                                     (''events'', JArr [sample_kill (1004 + max 0 duration) ''Ahri''])])),
       get_video_info := (\<lambda>p. (duration, 30))\<rparr>"

text \<open>
  The sample session with an events file that parses but does not hold a log: the JSON text
  \<^verbatim>\<open>[]\<close>, and a dictionary whose \<^verbatim>\<open>events\<close> entry is null.
\<close>

definition empty_array_world :: world where
  "empty_array_world = sample_world\<lparr>load_json := (\<lambda>p. Some (JArr []))\<rparr>"

definition null_events_world :: world where
  "null_events_world = sample_world\<lparr>load_json := (\<lambda>p. Some (JObj [(''events'', JNull)]))\<rparr>"


section \<open>Verification\<close>

subsection \<open>Score normaliser\<close>

text \<open>On a non-empty array the reductions are the greatest and the least element.\<close>

lemma np_max_eq: "xs \<noteq> [] \<Longrightarrow> np_max xs = Max (set xs)"
proof (cases xs)
  case (Cons a list)
  then show ?thesis unfolding np_max_def using Max.set_eq_fold[of a list] by simp
qed simp

lemma np_min_eq: "xs \<noteq> [] \<Longrightarrow> np_min xs = Min (set xs)"
proof (cases xs)
  case (Cons a list)
  then show ?thesis unfolding np_min_def using Min.set_eq_fold[of a list] by simp
qed simp

lemma normalize_scores_range:
  assumes "v \<in> set (normalize_scores s)"
  shows "0 \<le> v \<and> v \<le> 1"
proof (cases "length s = 0 \<or> np_max s = np_min s")
  case True
  with assms show ?thesis by (auto simp: normalize_scores_def)
next
  case False
  then have ne: "s \<noteq> []" and neq: "np_max s \<noteq> np_min s" by auto
  from assms False obtain u where u: "u \<in> set s"
    and v: "v = (u - np_min s) / (np_max s - np_min s)"
    by (auto simp: normalize_scores_def)
  have lo: "np_min s \<le> u" using u ne by (simp add: np_min_eq)
  have hi: "u \<le> np_max s" using u ne by (simp add: np_max_eq)
  from lo hi neq have pos: "0 < np_max s - np_min s" by linarith
  show ?thesis unfolding v using lo hi pos by (simp add: divide_simps)
qed

text \<open>
  Claim C5: \<open>normalize_scores\<close> returns \<open>(s - min s) / (max s - min s)\<close>; for an empty
  or constant series (\<open>max s = min s\<close>) it returns the all-zero series of the same length;
  every value of the result lies in \<open>[0, 1]\<close>.
\<close>

theorem normalize_scores_spec:
  "(s \<noteq> [] \<and> Max (set s) \<noteq> Min (set s) \<longrightarrow>
      normalize_scores s = map (\<lambda>v. (v - Min (set s)) / (Max (set s) - Min (set s))) s)
   \<and> (s = [] \<or> Max (set s) = Min (set s) \<longrightarrow> normalize_scores s = replicate (length s) 0)
   \<and> (\<forall>v \<in> set (normalize_scores s). 0 \<le> v \<and> v \<le> 1)"
proof (intro conjI impI ballI)
  assume "s \<noteq> [] \<and> Max (set s) \<noteq> Min (set s)"
  then show "normalize_scores s = map (\<lambda>v. (v - Min (set s)) / (Max (set s) - Min (set s))) s"
    by (simp add: normalize_scores_def np_max_eq np_min_eq)
next
  assume "s = [] \<or> Max (set s) = Min (set s)"
  then show "normalize_scores s = replicate (length s) 0"
    by (cases "s = []") (auto simp: normalize_scores_def np_max_eq np_min_eq)
next
  fix v assume "v \<in> set (normalize_scores s)"
  then show "0 \<le> v" using normalize_scores_range by blast
next
  fix v assume "v \<in> set (normalize_scores s)"
  then show "v \<le> 1" using normalize_scores_range by blast
qed

theorem normalize_scores_spec_witness:
  "normalize_scores [1, 3, 2] = [0, 1, 1/2] \<and> normalize_scores [5, 5] = [0, 0]
   \<and> normalize_scores [] = []"
  using normalize_scores_spec[of "[1, 3, 2]"] normalize_scores_spec[of "[5, 5]"]
    normalize_scores_spec[of "[]"]
  by simp

lemma normalize_scores_min_max:
  assumes "s \<noteq> []" "np_max s \<noteq> np_min s"
  shows "np_min (normalize_scores s) = 0" "np_max (normalize_scores s) = 1"
proof -
  let ?n = "normalize_scores s"
  have ne: "?n \<noteq> []" using assms by (simp add: normalize_scores_def)
  have form: "?n = map (\<lambda>v. (v - np_min s) / (np_max s - np_min s)) s"
    using assms by (simp add: normalize_scores_def)
  have "np_min s \<in> set s" using assms(1) by (simp add: np_min_eq)
  then have z: "0 \<in> set ?n" unfolding form by force
  have "np_max s \<in> set s" using assms(1) by (simp add: np_max_eq)
  then have "(np_max s - np_min s) / (np_max s - np_min s) \<in> set ?n" unfolding form by force
  then have o: "1 \<in> set ?n" using assms(2) by simp
  have rng: "\<forall>v\<in>set ?n. 0 \<le> v \<and> v \<le> 1" using normalize_scores_range by blast
  show "np_min ?n = 0" unfolding np_min_eq[OF ne]
    by (rule antisym) (use z rng in \<open>auto simp: Min_le_iff intro: Min.boundedI\<close>)
  show "np_max ?n = 1" unfolding np_max_eq[OF ne]
    by (rule antisym) (use o rng in \<open>auto simp: Max_ge_iff intro: Max.boundedI\<close>)
qed

lemma normalize_scores_twice: "normalize_scores (normalize_scores s) = normalize_scores s"
proof (cases "length s = 0 \<or> np_max s = np_min s")
  case True
  then have z: "normalize_scores s = replicate (length s) 0" by (simp add: normalize_scores_def)
  show ?thesis
  proof (cases "s = []")
    case True then show ?thesis by (simp add: normalize_scores_def)
  next
    case False
    then have "np_max (replicate (length s) 0) = np_min (replicate (length s) 0)"
      by (simp add: np_max_eq np_min_eq)
    then show ?thesis unfolding z by (simp add: normalize_scores_def)
  qed
next
  case False
  then have ne: "s \<noteq> []" and neq: "np_max s \<noteq> np_min s" by auto
  note mm = normalize_scores_min_max[OF ne neq]
  have "normalize_scores s \<noteq> []" using ne by (simp add: normalize_scores_def)
  then show ?thesis
    by (subst normalize_scores_def) (simp add: mm)
qed

text \<open>
  Claim C9: for a non-constant series whose values lie in \<open>[0, 1]\<close>, normalising twice
  gives the same series as normalising once. (By \<open>normalize_scores_twice\<close> this holds for
  every series.)
\<close>

theorem normalize_scores_idempotent:
  assumes "x \<noteq> []" and "Max (set x) \<noteq> Min (set x)" and "\<forall>v\<in>set x. 0 \<le> v \<and> v \<le> 1"
  shows "normalize_scores (normalize_scores x) = normalize_scores x"
  by (rule normalize_scores_twice)

theorem normalize_scores_idempotent_witness:
  "normalize_scores (normalize_scores [1/5, 4/5, 1/2]) = [0, 1, 1/2]"
proof -
  have a: "[1/5, 4/5, 1/2] \<noteq> ([] :: real list)" by simp
  have b: "Max (set [1/5, 4/5, 1/2 :: real]) \<noteq> Min (set [1/5, 4/5, 1/2])" by simp
  have c: "\<forall>v\<in>set [1/5, 4/5, 1/2 :: real]. 0 \<le> v \<and> v \<le> 1" by simp
  have d: "normalize_scores [1/5, 4/5, 1/2] = [0, 1, 1/2]"
    by (simp add: normalize_scores_def np_max_def np_min_def)
  show ?thesis using normalize_scores_idempotent[OF a b c] d by simp
qed

subsection \<open>Audio-energy downsampling\<close>

text \<open>
  When \<^verbatim>\<open>int(window_seconds * 2)\<close> is at least \<open>1\<close>, a non-empty hop-level series
  is downsampled to exactly \<open>max 1 (hop_count div hops_per_window)\<close> values, and it is
  returned unchanged when that count is not below the hop count.
\<close>

lemma compute_audio_energy_length:
  assumes "rms \<noteq> []" and "1 \<le> py_int (window_seconds * 2)"
  shows "\<exists>out. compute_audio_energy rms window_seconds = Inr out
           \<and> int (length out) = max 1 (int (length rms) div py_int (window_seconds * 2))
           \<and> (max 1 (int (length rms) div py_int (window_seconds * 2)) \<ge> int (length rms) \<longrightarrow> out = rms)"
proof -
  let ?h = "py_int (window_seconds * 2)"
  let ?n = "nat (max 1 (int (length rms) div ?h))"
  have len: "1 \<le> length rms" using assms(1) by (cases rms) auto
  have "int (length rms) div ?h \<le> int (length rms)"
    using assms(1) int_div_le_self[of "int (length rms)" ?h] by simp
  then have le: "?n \<le> length rms" using len by linarith
  have n: "int ?n = max 1 (int (length rms) div ?h)" by simp
  show ?thesis
  proof (cases "?n \<ge> length rms")
    case True
    with le have "?n = length rms" by linarith
    then show ?thesis using assms(2) True n
      by (auto simp: compute_audio_energy_def Let_def)
  next
    case False
    then show ?thesis using assms(2) n
      by (auto simp: compute_audio_energy_def Let_def)
  qed
qed

text \<open>
  Claim C8: for every non-empty hop-level series and every positive \<open>window_seconds\<close> the
  downsampling returns \<open>max 1 (hop_count div hops_per_window)\<close> values, the hop-level
  series itself when that count is not below the hop count. For a positive window shorter
  than half a second the divisor \<^verbatim>\<open>int(window_seconds * 2)\<close> is \<open>0\<close> and the code
  raises instead of returning the hop-level series: here for three hops and a window of a
  quarter of a second.
\<close>

theorem compute_audio_energy_small_window:
  "compute_audio_energy [1/10, 2/10, 3/10] (1/4) = Inl ZeroDivisionError"
  by (simp add: compute_audio_energy_def py_int_def)

subsection \<open>Peak test of the signal path\<close>

text \<open>On a non-empty series a percentile rank in \<open>[60, 100]\<close> yields a threshold.\<close>

lemma percentile_ok:
  assumes "0 \<le> s" "s \<le> 1" "combined \<noteq> []"
  shows "\<exists>th. percentile combined (100 - s * 40) = Inr th"
  using assms by (auto simp: percentile_def Let_def)

lemma percentile_empty:
  assumes "0 \<le> s" "s \<le> 1"
  shows "percentile [] (100 - s * 40) = Inl IndexError"
  using assms by (auto simp: percentile_def)

lemma is_peak_iff:
  "is_peak combined threshold ms mp i \<longleftrightarrow>
     combined ! i \<ge> combined ! (i - 1) \<and> combined ! i \<ge> combined ! (i + 1)
     \<and> combined ! i \<ge> threshold \<and> combined ! i \<ge> ms
     \<and> combined ! i - min (combined ! (i - 1)) (combined ! (i + 1)) \<ge> mp"
  by (auto simp: is_peak_def Let_def)

lemma peak_indices_member:
  "i \<in> set (peak_indices combined th ms mp) \<longleftrightarrow>
     1 \<le> i \<and> int i \<le> int (length combined) - 2
     \<and> combined ! i \<ge> combined ! (i - 1) \<and> combined ! i \<ge> combined ! (i + 1)
     \<and> combined ! i \<ge> th \<and> combined ! i \<ge> ms
     \<and> combined ! i - min (combined ! (i - 1)) (combined ! (i + 1)) \<ge> mp"
proof -
  have "i \<in> set [1 ..< length combined - 1] \<longleftrightarrow> 1 \<le> i \<and> int i \<le> int (length combined) - 2"
    by auto
  then show ?thesis unfolding peak_indices_def by (auto simp: is_peak_iff)
qed

text \<open>
  Claim C3: in the signal path, with a sensitivity in \<open>[0, 1]\<close>, the threshold that
  \<open>select_peaks\<close> uses on a combined series of length \<open>n\<close> is its
  \<open>100 - sensitivity * 40\<close> percentile, the candidates that go into the selection are the
  clip windows of the qualifying indices, and an index \<open>i\<close> qualifies exactly when
  \<open>1 \<le> i \<le> n - 2\<close>, the value at \<open>i\<close> is a non-strict local maximum, it reaches the
  threshold and \<open>min_score\<close>, and it exceeds the lower of its two neighbours by at least
  \<open>min_prominence\<close>. On the empty series the percentile raises and no index is looked at.
\<close>

theorem signal_path_peaks:
  assumes "0 \<le> sensitivity p" and "sensitivity p \<le> 1"
  shows "(combined = [] \<longrightarrow> select_peaks p duration combined = Inl IndexError)
   \<and> (combined \<noteq> [] \<longrightarrow>
       (\<exists>th. percentile combined (100 - sensitivity p * 40) = Inr th
         \<and> select_peaks p duration combined
             = Inr (sort_key start
                     (nms_loop (min_between p) (max_clips p) []
                        (sort_key (\<lambda>x. - score x)
                           (List.map_filter
                              (clip_window (window_sec p) (padding_before p) (clip_duration p)
                                 (min_clip_length p) duration combined)
                              (peak_indices combined th (min_score p) (min_prominence p))))))
         \<and> (\<forall>i. i \<in> set (peak_indices combined th (min_score p) (min_prominence p)) \<longleftrightarrow>
                1 \<le> i \<and> int i \<le> int (length combined) - 2
                \<and> combined ! i \<ge> combined ! (i - 1) \<and> combined ! i \<ge> combined ! (i + 1)
                \<and> combined ! i \<ge> th
                \<and> combined ! i \<ge> min_score p
                \<and> combined ! i - min (combined ! (i - 1)) (combined ! (i + 1)) \<ge> min_prominence p)))"
proof (intro conjI impI)
  assume "combined = []"
  then show "select_peaks p duration combined = Inl IndexError"
    using percentile_empty[OF assms] by (simp add: select_peaks_def)
next
  assume "combined \<noteq> []"
  from percentile_ok[OF assms this] obtain th
    where th: "percentile combined (100 - sensitivity p * 40) = Inr th" ..
  have sel: "select_peaks p duration combined
             = Inr (sort_key start
                     (nms_loop (min_between p) (max_clips p) []
                        (sort_key (\<lambda>x. - score x)
                           (List.map_filter
                              (clip_window (window_sec p) (padding_before p) (clip_duration p)
                                 (min_clip_length p) duration combined)
                              (peak_indices combined th (min_score p) (min_prominence p))))))"
    using th by (simp add: select_peaks_def Let_def)
  show "\<exists>th. percentile combined (100 - sensitivity p * 40) = Inr th
         \<and> select_peaks p duration combined
             = Inr (sort_key start
                     (nms_loop (min_between p) (max_clips p) []
                        (sort_key (\<lambda>x. - score x)
                           (List.map_filter
                              (clip_window (window_sec p) (padding_before p) (clip_duration p)
                                 (min_clip_length p) duration combined)
                              (peak_indices combined th (min_score p) (min_prominence p))))))
         \<and> (\<forall>i. i \<in> set (peak_indices combined th (min_score p) (min_prominence p)) \<longleftrightarrow>
                1 \<le> i \<and> int i \<le> int (length combined) - 2
                \<and> combined ! i \<ge> combined ! (i - 1) \<and> combined ! i \<ge> combined ! (i + 1)
                \<and> combined ! i \<ge> th
                \<and> combined ! i \<ge> min_score p
                \<and> combined ! i - min (combined ! (i - 1)) (combined ! (i + 1)) \<ge> min_prominence p)"
  proof (intro exI[of _ th] conjI allI)
    show "percentile combined (100 - sensitivity p * 40) = Inr th" by (rule th)
    show "select_peaks p duration combined
             = Inr (sort_key start
                     (nms_loop (min_between p) (max_clips p) []
                        (sort_key (\<lambda>x. - score x)
                           (List.map_filter
                              (clip_window (window_sec p) (padding_before p) (clip_duration p)
                                 (min_clip_length p) duration combined)
                              (peak_indices combined th (min_score p) (min_prominence p))))))"
      by (rule sel)
    fix i
    show "i \<in> set (peak_indices combined th (min_score p) (min_prominence p)) \<longleftrightarrow>
                1 \<le> i \<and> int i \<le> int (length combined) - 2
                \<and> combined ! i \<ge> combined ! (i - 1) \<and> combined ! i \<ge> combined ! (i + 1)
                \<and> combined ! i \<ge> th
                \<and> combined ! i \<ge> min_score p
                \<and> combined ! i - min (combined ! (i - 1)) (combined ! (i + 1)) \<ge> min_prominence p"
      by (rule peak_indices_member)
  qed
qed

theorem signal_path_peaks_witness:
  "percentile [0, 1, 0] (100 - sensitivity (selection_of empty_config) * 40) = Inr (3/5)
   \<and> peak_indices [0, 1, 0] (3/5) (min_score (selection_of empty_config))
        (min_prominence (selection_of empty_config)) = [1]
   \<and> select_peaks (selection_of empty_config) 100 [0, 1, 0]
        = Inr [\<lparr>start = 1, end_sec = 31, score = 1, source = None\<rparr>]"
proof -
  have s: "0 \<le> sensitivity (selection_of empty_config)" "sensitivity (selection_of empty_config) \<le> 1"
    by (simp_all add: selection_of_def empty_config_def get_or_def)
  have ne: "[0, 1, 0] \<noteq> ([] :: real list)" by simp
  have pc: "percentile [0, 1, 0] (100 - sensitivity (selection_of empty_config) * 40) = Inr (3/5)"
    by (simp add: percentile_def Let_def selection_of_def empty_config_def get_or_def)
  have pk: "peak_indices [0, 1, 0] (3/5) (min_score (selection_of empty_config))
        (min_prominence (selection_of empty_config)) = [1]"
    by (simp add: peak_indices_def is_peak_def selection_of_def empty_config_def get_or_def)
  from signal_path_peaks[OF s, of "[0, 1, 0]" 100, THEN conjunct2, rule_format, OF ne]
  obtain th where th: "percentile [0, 1, 0] (100 - sensitivity (selection_of empty_config) * 40) = Inr th"
    and sel: "select_peaks (selection_of empty_config) 100 [0, 1, 0]
             = Inr (sort_key start
                     (nms_loop (min_between (selection_of empty_config)) (max_clips (selection_of empty_config)) []
                        (sort_key (\<lambda>x. - score x)
                           (List.map_filter
                              (clip_window (window_sec (selection_of empty_config))
                                 (padding_before (selection_of empty_config))
                                 (clip_duration (selection_of empty_config))
                                 (min_clip_length (selection_of empty_config)) 100 [0, 1, 0])
                              (peak_indices [0, 1, 0] th (min_score (selection_of empty_config))
                                 (min_prominence (selection_of empty_config)))))))"
    by (elim exE conjE) (rule that, assumption+)
  from th pc have "th = 3/5" by simp
  with sel have "select_peaks (selection_of empty_config) 100 [0, 1, 0]
             = Inr (sort_key start
                     (nms_loop (min_between (selection_of empty_config)) (max_clips (selection_of empty_config)) []
                        (sort_key (\<lambda>x. - score x)
                           (List.map_filter
                              (clip_window (window_sec (selection_of empty_config))
                                 (padding_before (selection_of empty_config))
                                 (clip_duration (selection_of empty_config))
                                 (min_clip_length (selection_of empty_config)) 100 [0, 1, 0])
                              [1]))))"
    by (simp only: pk)
  then have "select_peaks (selection_of empty_config) 100 [0, 1, 0]
        = Inr [\<lparr>start = 1, end_sec = 31, score = 1, source = None\<rparr>]"
    by (simp add: selection_of_def empty_config_def get_or_def clip_window_def
          List.map_filter_simps Let_def)
  with pc pk show ?thesis by blast
qed

subsection \<open>Spacing and limit of the selected clips\<close>

text \<open>
  The spacing relation is symmetric, so it survives the final sort by start.
\<close>

lemma sorted_wrt_insort_key_sym:
  assumes "\<And>a b. P a b \<Longrightarrow> P b a"
  shows "sorted_wrt P (insort_key f x xs) \<longleftrightarrow> (\<forall>y\<in>set xs. P x y) \<and> sorted_wrt P xs"
  using assms by (induction xs) (auto simp: set_insort_key)

lemma sorted_wrt_sort_key_sym:
  assumes "\<And>a b. P a b \<Longrightarrow> P b a"
  shows "sorted_wrt P (sort_key f xs) \<longleftrightarrow> sorted_wrt P xs"
  by (induction xs) (simp_all add: sorted_wrt_insort_key_sym[of P, OF assms])

text \<open>Invariants of the greedy loop: the limit and the pairwise spacing.\<close>

lemma nms_loop_length:
  "length (nms_loop gap limit selected cs) \<le> max (length selected) (nat limit)"
proof (induction cs arbitrary: selected)
  case Nil
  then show ?case by simp
next
  case (Cons c cs)
  show ?case
  proof (cases "int (length selected) \<ge> limit")
    case True
    then show ?thesis by simp
  next
    case False
    then have "length (selected @ [c]) \<le> nat limit" by simp
    then have "max (length (selected @ [c])) (nat limit) \<le> max (length selected) (nat limit)"
      by simp
    with Cons.IH[of "selected @ [c]"] Cons.IH[of selected] False show ?thesis
      by (simp del: length_append)
  qed
qed

lemma nms_loop_spaced:
  assumes "sorted_wrt (\<lambda>a b. \<not> \<bar>start a - start b\<bar> < gap) selected"
  shows "sorted_wrt (\<lambda>a b. \<not> \<bar>start a - start b\<bar> < gap) (nms_loop gap limit selected cs)"
  using assms
proof (induction cs arbitrary: selected)
  case Nil
  then show ?case by simp
next
  case (Cons c cs)
  show ?case
  proof (cases "int (length selected) \<ge> limit")
    case True
    with Cons.prems show ?thesis by simp
  next
    case False
    show ?thesis
    proof (cases "list_ex (\<lambda>s. \<bar>start c - start s\<bar> < gap) selected")
      case True
      with False Cons show ?thesis by simp
    next
      case far: False
      then have "\<forall>s\<in>set selected. \<not> \<bar>start s - start c\<bar> < gap"
        by (simp add: list_ex_iff abs_minus_commute)
      with Cons.prems have "sorted_wrt (\<lambda>a b. \<not> \<bar>start a - start b\<bar> < gap) (selected @ [c])"
        by (simp add: sorted_wrt_append)
      from Cons.IH[OF this] False far show ?thesis by simp
    qed
  qed
qed

lemma nms_loop_subset: "set (nms_loop gap limit selected cs) \<subseteq> set selected \<union> set cs"
proof (induction cs arbitrary: selected)
  case Nil
  then show ?case by simp
next
  case (Cons c cs)
  from Cons.IH[of selected] Cons.IH[of "selected @ [c]"] show ?case
    by (auto split: if_splits)
qed

lemma well_spacedI:
  assumes "sorted_wrt (\<lambda>a b. \<not> \<bar>start a - start b\<bar> < gap) sel" and "length sel \<le> nat limit"
  shows "well_spaced gap limit sel"
proof -
  have "\<not> \<bar>start (sel ! i) - start (sel ! j)\<bar> < gap"
    if "i < length sel" "j < length sel" "i \<noteq> j" for i j
  proof (cases "i < j")
    case True
    with assms(1) that show ?thesis by (simp add: sorted_wrt_iff_nth_less)
  next
    case False
    with that have "j < i" by simp
    with assms(1) that have "\<not> \<bar>start (sel ! j) - start (sel ! i)\<bar> < gap"
      by (simp add: sorted_wrt_iff_nth_less)
    then show ?thesis by (simp add: abs_minus_commute)
  qed
  with assms(2) show ?thesis by (simp add: well_spaced_def)
qed

lemma nms_well_spaced: "well_spaced gap limit (nms_loop gap limit [] cs)"
proof (rule well_spacedI)
  show "sorted_wrt (\<lambda>a b. \<not> \<bar>start a - start b\<bar> < gap) (nms_loop gap limit [] cs)"
    by (rule nms_loop_spaced) simp
  show "length (nms_loop gap limit [] cs) \<le> nat limit"
    using nms_loop_length[of gap limit "[]" cs] by simp
qed

lemma nms_sorted_well_spaced: "well_spaced gap limit (sort_key f (nms_loop gap limit [] cs))"
proof (rule well_spacedI)
  have "sorted_wrt (\<lambda>a b. \<not> \<bar>start a - start b\<bar> < gap) (nms_loop gap limit [] cs)"
    by (rule nms_loop_spaced) simp
  then show "sorted_wrt (\<lambda>a b. \<not> \<bar>start a - start b\<bar> < gap) (sort_key f (nms_loop gap limit [] cs))"
    by (subst sorted_wrt_sort_key_sym) (simp_all add: abs_minus_commute)
  show "length (sort_key f (nms_loop gap limit [] cs)) \<le> nat limit"
    using nms_loop_length[of gap limit "[]" cs] by simp
qed

lemma select_peaks_well_spaced:
  assumes "select_peaks p duration combined = Inr sel"
  shows "well_spaced (min_between p) (max_clips p) sel"
  using assms nms_sorted_well_spaced
  by (auto simp: select_peaks_def Let_def split: sum.splits)

lemma load_highlights_well_spaced:
  assumes "load_highlights_from_events w events_path video_path config = Inr (Some sel)"
  shows "well_spaced (get_or (det_min_seconds_between_clips config) 120)
           (get_or (det_max_clips_per_video config) 5) sel"
  using assms nms_well_spaced
  by (auto simp: load_highlights_from_events_def then_do_def Let_def
           split: if_splits option.splits sum.splits)

text \<open>A run that returns a value has passed every step before it.\<close>

lemma bind_run_InrD:
  assumes "snd (bind_run m f) = Inr v"
  shows "\<exists>x. snd m = Inr x \<and> snd (f x) = Inr v"
  using assms by (auto simp: bind_run_def split: sum.splits)

lemma signal_pipeline_select:
  assumes "snd (signal_pipeline w video config) = Inr sel"
  shows "\<exists>duration combined. select_peaks (selection_of config) duration combined = Inr sel"
  using assms unfolding signal_pipeline_def Let_def
  by (auto simp: lift_def dest!: bind_run_InrD split: if_splits) blast+

lemma signal_pipeline_well_spaced:
  assumes "snd (signal_pipeline w video config) = Inr sel"
  shows "well_spaced (get_or (det_min_seconds_between_clips config) 120)
           (get_or (det_max_clips_per_video config) 5) sel"
proof -
  from signal_pipeline_select[OF assms] obtain duration combined
    where "select_peaks (selection_of config) duration combined = Inr sel" by blast
  from select_peaks_well_spaced[OF this] show ?thesis by (simp add: selection_of_def)
qed


lemma detect_highlights_well_spaced:
  assumes "snd (detect_highlights w video_path config events_file) = Inr sel"
  shows "well_spaced (get_or (det_min_seconds_between_clips config) 120)
           (get_or (det_max_clips_per_video config) 5) sel"
proof -
  let ?ep = "resolve_events_path w video_path config events_file"
  let ?ev = "load_highlights_from_events w ?ep video_path config"
  show ?thesis
  proof (cases "get_or (ge_enabled config) True \<and> get_or (ge_prefer_events_over_ai config) True
                 \<and> (\<exists>h hs. ?ev = Inr (Some (h # hs)))")
    case True
    then obtain h hs where ev: "?ev = Inr (Some (h # hs))" by blast
    with True assms have "sel = h # hs" by (simp add: detect_highlights_def Let_def)
    with ev load_highlights_well_spaced show ?thesis by blast
  next
    case False
    with assms have "snd (signal_pipeline w video_path config) = Inr sel"
      by (auto simp: detect_highlights_def Let_def bind_run_def emit_def
               split: option.splits list.splits sum.splits if_splits)
    with signal_pipeline_well_spaced show ?thesis by simp
  qed
qed

text \<open>The event selector on the sample session.\<close>

lemma sample_event_selection:
  "load_highlights_from_events sample_world ''/rec/game_events.json'' ''/rec/match.mp4'' empty_config
     = Inr (Some [sample_clip 2, sample_clip 132, sample_clip 262])"
  by (simp add: load_highlights_from_events_def sample_world_def sample_log_def sample_kill_def
        empty_config_def get_or_def or_str_def ascii_lower_def ascii_strip_def event_candidate_def
        dict_get_def py_iter_def then_do_def as_number_def sample_clip_def Let_def)

text \<open>
  Claim C2: whichever selector produced it, the returned list never holds two candidates
  whose starts differ by less than \<open>min_seconds_between_clips\<close>, and it never has more
  than \<open>max_clips_per_video\<close> entries. The limit is read as a count: with a negative
  limit the list is empty.
\<close>

theorem selected_clips_spaced_and_limited:
  "\<forall>sel.
     load_highlights_from_events w events_path video_path config = Inr (Some sel)
     \<or> snd (signal_pipeline w video_path config) = Inr sel
     \<or> snd (detect_highlights w video_path config events_file) = Inr sel
     \<longrightarrow>
     (\<forall>i < length sel. \<forall>j < length sel. i \<noteq> j \<longrightarrow>
         get_or (det_min_seconds_between_clips config) 120 \<le> \<bar>start (sel ! i) - start (sel ! j)\<bar>)
     \<and> length sel \<le> nat (get_or (det_max_clips_per_video config) 5)"
proof (intro allI impI)
  fix sel
  assume "load_highlights_from_events w events_path video_path config = Inr (Some sel)
     \<or> snd (signal_pipeline w video_path config) = Inr sel
     \<or> snd (detect_highlights w video_path config events_file) = Inr sel"
  then have "well_spaced (get_or (det_min_seconds_between_clips config) 120)
           (get_or (det_max_clips_per_video config) 5) sel"
    using load_highlights_well_spaced signal_pipeline_well_spaced detect_highlights_well_spaced
    by blast
  then show "(\<forall>i < length sel. \<forall>j < length sel. i \<noteq> j \<longrightarrow>
         get_or (det_min_seconds_between_clips config) 120 \<le> \<bar>start (sel ! i) - start (sel ! j)\<bar>)
     \<and> length sel \<le> nat (get_or (det_max_clips_per_video config) 5)"
    by (simp add: well_spaced_def not_less)
qed

theorem selected_clips_spaced_and_limited_witness:
  "load_highlights_from_events sample_world ''/rec/game_events.json'' ''/rec/match.mp4'' empty_config
     = Inr (Some [sample_clip 2, sample_clip 132, sample_clip 262])
   \<and> (120 :: real) \<le> \<bar>start (sample_clip 2) - start (sample_clip 132)\<bar>
   \<and> (120 :: real) \<le> \<bar>start (sample_clip 132) - start (sample_clip 262)\<bar>
   \<and> (120 :: real) \<le> \<bar>start (sample_clip 2) - start (sample_clip 262)\<bar>
   \<and> length [sample_clip 2, sample_clip 132, sample_clip 262] \<le> nat 5"
proof -
  let ?sel = "[sample_clip 2, sample_clip 132, sample_clip 262]"
  note ev = sample_event_selection
  from selected_clips_spaced_and_limited[of sample_world "''/rec/game_events.json''"
      "''/rec/match.mp4''" empty_config None] ev
  have sp: "(\<forall>i < length ?sel. \<forall>j < length ?sel. i \<noteq> j \<longrightarrow>
         get_or (det_min_seconds_between_clips empty_config) 120 \<le> \<bar>start (?sel ! i) - start (?sel ! j)\<bar>)
     \<and> length ?sel \<le> nat (get_or (det_max_clips_per_video empty_config) 5)"
    by blast
  have g: "get_or (det_min_seconds_between_clips empty_config) 120 = (120::real)"
    "get_or (det_max_clips_per_video empty_config) 5 = (5::int)"
    by (simp_all add: empty_config_def get_or_def)
  from sp have far: "120 \<le> \<bar>start (?sel ! i) - start (?sel ! j)\<bar>"
    if "i < 3" "j < 3" "i \<noteq> j" for i j
    using that unfolding g by simp
  from sp have len: "length ?sel \<le> nat 5" unfolding g by simp
  from far[of 0 1] far[of 1 2] far[of 0 2] len
  show ?thesis using ev by simp
qed

subsection \<open>Event path\<close>

text \<open>Loops that do not raise.\<close>

lemma traverse_map:
  assumes "\<And>x. x \<in> set xs \<Longrightarrow> f x = Inr (g x)"
  shows "traverse f xs = Inr (map g xs)"
  using assms by (induction xs) (simp_all add: then_do_def)

lemma traverse_members:
  assumes "traverse f xs = Inr ys" and "y \<in> set ys"
  shows "\<exists>x \<in> set xs. f x = Inr y"
  using assms
proof (induction xs arbitrary: ys)
  case Nil
  then show ?case by simp
next
  case (Cons x xs)
  from Cons.prems(1) obtain z zs where z: "f x = Inr z" and zs: "traverse f xs = Inr zs"
    and ys: "ys = z # zs"
    by (auto simp: then_do_def split: sum.splits)
  show ?case
  proof (cases "y = z")
    case True
    with z show ?thesis by auto
  next
    case False
    with Cons.prems(2) ys have "y \<in> set zs" by simp
    from Cons.IH[OF zs this] show ?thesis by auto
  qed
qed

lemma filter_by_killer_all:
  assumes "\<And>k. k \<in> set ks \<Longrightarrow> killer_of w k = Inr player"
  shows "filter_by_killer w player ks = Inr ks"
  using assms by (induction ks) (simp_all add: then_do_def)

lemma filter_by_killer_none:
  assumes "\<And>k. k \<in> set ks \<Longrightarrow> \<exists>name. killer_of w k = Inr name \<and> name \<noteq> player"
  shows "filter_by_killer w player ks = Inr []"
  using assms
proof (induction ks)
  case Nil
  then show ?case by simp
next
  case (Cons k ks)
  from Cons.prems[of k] obtain name where "killer_of w k = Inr name" "name \<noteq> player" by auto
  moreover from Cons have "filter_by_killer w player ks = Inr []" by simp
  ultimately show ?case by (simp add: then_do_def)
qed

lemma event_candidate_wall_clock:
  assumes "dict_get k ''wall_clock'' JNull = Inr (JNum t)"
  shows "event_candidate data t0 offset padding clip_len k
           = Inr \<lparr>start = max 0 (t - t0 + offset - padding),
                  end_sec = max 0 (t - t0 + offset - padding) + clip_len,
                  score = 1, source = Some ''game_events''\<rparr>"
  using assms by (simp add: event_candidate_def then_do_def as_number_def Let_def)

lemma three_in_any_order:
  assumes "length ks = 3" and "set (map f ks) = {a, b, c}"
    and "a \<noteq> b" "b \<noteq> c" "a \<noteq> c"
  shows "map f ks \<in> {[a, b, c], [a, c, b], [b, a, c], [b, c, a], [c, a, b], [c, b, a]}"
proof -
  from assms(1) obtain x y z where ks: "ks = [x, y, z]"
    by (auto simp: length_Suc_conv numeral_3_eq_3)
  from assms(2) have mem: "f x \<in> {a, b, c}" "f y \<in> {a, b, c}" "f z \<in> {a, b, c}"
    and all: "a \<in> {f x, f y, f z}" "b \<in> {f x, f y, f z}" "c \<in> {f x, f y, f z}"
    unfolding ks by auto
  show ?thesis unfolding ks using mem all assms(3-5) by auto
qed

text \<open>
  With a readable log whose kills all pass the name filter and all yield a clip window, the
  selector returns the greedy selection over the windows, sorted by start.
\<close>

lemma load_highlights_from_events_kills:
  assumes "path_exists w events_path" and "load_json w events_path = Some data"
    and "dict_get data ''events'' (JArr []) = Inr events"
    and "py_iter events = Inr elements"
    and "select_kills elements = Inr kills"
    and "kills \<noteq> []"
    and "get_or (ge_filter_my_kills_only config) False
          \<and> str_lower w (str_strip w (or_str (ge_player_summoner_name config) [])) \<noteq> []
        \<longrightarrow> (\<forall>k \<in> set kills.
               killer_of w k = Inr (str_lower w (str_strip w (or_str (ge_player_summoner_name config) []))))"
    and "traverse (event_candidate data (get_or (getctime w video_path) 0)
                     (get_or (ge_recording_start_offset config) 0)
                     (get_or (clip_padding_before config) 3)
                     (get_or (clip_duration_seconds config) 30)) kills = Inr candidates"
  shows "load_highlights_from_events w events_path video_path config
           = Inr (Some (nms_loop (get_or (det_min_seconds_between_clips config) 120)
                     (get_or (det_max_clips_per_video config) 5) []
                     (sort_key start candidates)))"
proof -
  let ?pn = "str_lower w (str_strip w (or_str (ge_player_summoner_name config) []))"
  have same: "filter_by_killer w ?pn kills = Inr kills"
    if "get_or (ge_filter_my_kills_only config) False" "?pn \<noteq> []"
    using assms(7) that by (intro filter_by_killer_all) auto
  show ?thesis
    using assms(1-6,8) same
    by (simp add: load_highlights_from_events_def then_do_def Let_def)
qed

text \<open>
  Claim C4: the log holds kills at wall-clock times \<open>T0\<close>, \<open>T0 + 130\<close> and
  \<open>T0 + 260\<close> (in any order), the recording started at \<open>T0 - 5\<close>, the offset is \<open>0\<close>,
  \<open>padding_before\<close> is \<open>3\<close>, \<open>duration_seconds\<close> is \<open>30\<close>, the minimal gap is
  \<open>120\<close> and at least three clips are allowed. Then the event selector returns exactly
  three candidates, starting at \<open>2\<close>, \<open>132\<close> and \<open>262\<close> seconds in this order, each
  thirty seconds long and of score \<open>1\<close>. The name filter is either off or passed by the
  three kills.
\<close>

theorem event_path_three_kills:
  assumes found: "path_exists w events_path"
    and json: "load_json w events_path = Some data"
    and log: "dict_get data ''events'' (JArr []) = Inr (JArr evs)"
    and kills: "select_kills evs = Inr kills"
    and three: "length kills = 3"
    and clocks: "set (map (\<lambda>k. dict_get k ''wall_clock'' JNull) kills)
                   = {Inr (JNum T0), Inr (JNum (T0 + 130)), Inr (JNum (T0 + 260))}"
    and name_filter: "get_or (ge_filter_my_kills_only config) False
          \<and> str_lower w (str_strip w (or_str (ge_player_summoner_name config) [])) \<noteq> []
        \<longrightarrow> (\<forall>k \<in> set kills.
               killer_of w k = Inr (str_lower w (str_strip w (or_str (ge_player_summoner_name config) []))))"
    and recording: "getctime w video_path = Some (T0 - 5)"
    and offset: "get_or (ge_recording_start_offset config) 0 = 0"
    and padding: "get_or (clip_padding_before config) 3 = 3"
    and duration: "get_or (clip_duration_seconds config) 30 = 30"
    and gap: "get_or (det_min_seconds_between_clips config) 120 = 120"
    and limit: "3 \<le> get_or (det_max_clips_per_video config) 5"
  shows "load_highlights_from_events w events_path video_path config
           = Inr (Some [\<lparr>start = 2, end_sec = 2 + 30, score = 1, source = Some ''game_events''\<rparr>,
                        \<lparr>start = 132, end_sec = 132 + 30, score = 1, source = Some ''game_events''\<rparr>,
                        \<lparr>start = 262, end_sec = 262 + 30, score = 1, source = Some ''game_events''\<rparr>])"
proof -
  let ?ec = "event_candidate data (T0 - 5) 0 3 30"
  let ?c = "\<lambda>t. \<lparr>start = t, end_sec = t + 30, score = 1, source = Some ''game_events''\<rparr>"
  have ne: "kills \<noteq> []" using three by auto
  have ec: "?ec k = Inr (?c (max 0 (t - (T0 - 5) + 0 - 3)))"
    if "dict_get k ''wall_clock'' JNull = Inr (JNum t)" for k t
    using event_candidate_wall_clock[OF that, of data "T0 - 5" 0 3 30] by simp
  from three obtain x y z where ks: "kills = [x, y, z]"
    by (auto simp: length_Suc_conv numeral_3_eq_3)
  have "map (\<lambda>k. dict_get k ''wall_clock'' JNull) kills
          \<in> {[Inr (JNum T0), Inr (JNum (T0 + 130)), Inr (JNum (T0 + 260))],
              [Inr (JNum T0), Inr (JNum (T0 + 260)), Inr (JNum (T0 + 130))],
              [Inr (JNum (T0 + 130)), Inr (JNum T0), Inr (JNum (T0 + 260))],
              [Inr (JNum (T0 + 130)), Inr (JNum (T0 + 260)), Inr (JNum T0)],
              [Inr (JNum (T0 + 260)), Inr (JNum T0), Inr (JNum (T0 + 130))],
              [Inr (JNum (T0 + 260)), Inr (JNum (T0 + 130)), Inr (JNum T0)]}"
    by (rule three_in_any_order[OF three clocks]) simp_all
  then have "\<exists>cs. traverse ?ec kills = Inr cs \<and> sort_key start cs = [?c 2, ?c 132, ?c 262]"
    unfolding ks by (auto simp: ec then_do_def)
  then obtain cs where cs: "traverse ?ec kills = Inr cs"
    and sorted: "sort_key start cs = [?c 2, ?c 132, ?c 262]" by blast
  have nms: "nms_loop 120 (get_or (det_max_clips_per_video config) 5) [] [?c 2, ?c 132, ?c 262]
               = [?c 2, ?c 132, ?c 262]"
    using limit by simp
  have ct: "get_or (getctime w video_path) 0 = T0 - 5" using recording by (simp add: get_or_def)
  have iter: "py_iter (JArr evs) = Inr evs" by (simp add: py_iter_def)
  have cs': "traverse (event_candidate data (get_or (getctime w video_path) 0)
                     (get_or (ge_recording_start_offset config) 0)
                     (get_or (clip_padding_before config) 3)
                     (get_or (clip_duration_seconds config) 30)) kills = Inr cs"
    using cs by (simp only: ct offset padding duration)
  from load_highlights_from_events_kills[OF found json log iter kills ne name_filter cs']
  show ?thesis by (simp only: gap sorted nms)
qed

theorem event_path_three_kills_witness:
  "load_highlights_from_events sample_world ''/rec/game_events.json'' ''/rec/match.mp4'' empty_config
     = Inr (Some [\<lparr>start = 2, end_sec = 2 + 30, score = 1, source = Some ''game_events''\<rparr>,
                  \<lparr>start = 132, end_sec = 132 + 30, score = 1, source = Some ''game_events''\<rparr>,
                  \<lparr>start = 262, end_sec = 262 + 30, score = 1, source = Some ''game_events''\<rparr>])"
proof (rule event_path_three_kills[where ?T0.0 = 1005 and data = sample_log
        and evs = "[sample_kill 1005 ''Ahri'', sample_kill 1135 ''Ahri'', sample_kill 1265 ''Ahri'']"
        and kills = "[sample_kill 1005 ''Ahri'', sample_kill 1135 ''Ahri'', sample_kill 1265 ''Ahri'']"])
  let ?kills = "[sample_kill 1005 ''Ahri'', sample_kill 1135 ''Ahri'', sample_kill 1265 ''Ahri'']"
  show "path_exists sample_world ''/rec/game_events.json''"
    by (simp add: sample_world_def)
  show "load_json sample_world ''/rec/game_events.json'' = Some sample_log"
    by (simp add: sample_world_def)
  show "dict_get sample_log ''events'' (JArr []) = Inr (JArr ?kills)"
    by (simp add: sample_log_def dict_get_def)
  show "select_kills ?kills = Inr ?kills"
    by (simp add: sample_kill_def dict_get_def then_do_def)
  show "length ?kills = 3" by simp
  show "set (map (\<lambda>k. dict_get k ''wall_clock'' JNull) ?kills)
          = {Inr (JNum 1005), Inr (JNum (1005 + 130)), Inr (JNum (1005 + 260))}"
    by (simp add: sample_kill_def dict_get_def)
  show "get_or (ge_filter_my_kills_only empty_config) False
          \<and> str_lower sample_world (str_strip sample_world (or_str (ge_player_summoner_name empty_config) [])) \<noteq> []
        \<longrightarrow> (\<forall>k \<in> set ?kills.
               killer_of sample_world k
                 = Inr (str_lower sample_world (str_strip sample_world (or_str (ge_player_summoner_name empty_config) []))))"
    by (simp add: empty_config_def get_or_def)
  show "getctime sample_world ''/rec/match.mp4'' = Some (1005 - 5)"
    by (simp add: sample_world_def)
  show "get_or (ge_recording_start_offset empty_config) 0 = 0"
    "get_or (clip_padding_before empty_config) 3 = 3"
    "get_or (clip_duration_seconds empty_config) 30 = 30"
    "get_or (det_min_seconds_between_clips empty_config) 120 = 120"
    "3 \<le> get_or (det_max_clips_per_video empty_config) 5"
    by (simp_all add: empty_config_def get_or_def)
qed


text \<open>
  On a log that has the shape the logger writes (a dictionary whose \<^verbatim>\<open>events\<close> entry can
  be iterated and whose elements are dictionaries; killer names that are strings) the
  selector returns \<^verbatim>\<open>None\<close> when the events file is missing, when it cannot be parsed,
  when the log has no kill event, and when the name filter is on with a player name that no
  killer's name equals after stripping and lower-casing. The orchestrator then returns what
  the signal pipeline returns.
\<close>

lemma no_usable_events_well_formed:
  assumes "\<not> path_exists w events_path
     \<or> load_json w events_path = None
     \<or> (\<exists>data events elements. load_json w events_path = Some data
           \<and> dict_get data ''events'' (JArr []) = Inr events
           \<and> py_iter events = Inr elements
           \<and> select_kills elements = Inr [])
     \<or> (\<exists>data events elements kills. load_json w events_path = Some data
           \<and> dict_get data ''events'' (JArr []) = Inr events
           \<and> py_iter events = Inr elements
           \<and> select_kills elements = Inr kills
           \<and> get_or (ge_filter_my_kills_only config) False
           \<and> str_lower w (str_strip w (or_str (ge_player_summoner_name config) [])) \<noteq> []
           \<and> (\<forall>k \<in> set kills. \<exists>name. killer_of w k = Inr name
                 \<and> name \<noteq> str_lower w (str_strip w (or_str (ge_player_summoner_name config) []))))"
  shows "load_highlights_from_events w events_path video_path config = Inr None
     \<and> (events_path = resolve_events_path w video_path config events_file \<longrightarrow>
          snd (detect_highlights w video_path config events_file)
            = snd (signal_pipeline w video_path config))"
proof -
  let ?pn = "str_lower w (str_strip w (or_str (ge_player_summoner_name config) []))"
  have none: "load_highlights_from_events w events_path video_path config = Inr None"
  proof (cases "path_exists w events_path")
    case False
    then show ?thesis by (simp add: load_highlights_from_events_def)
  next
    case True
    show ?thesis
    proof (cases "load_json w events_path")
      case None
      with True show ?thesis by (simp add: load_highlights_from_events_def)
    next
      case (Some data)
      from assms True Some obtain events elements kills
        where ev: "dict_get data ''events'' (JArr []) = Inr events"
          and it: "py_iter events = Inr elements"
          and ks: "select_kills elements = Inr kills"
          and c: "kills = [] \<or> (get_or (ge_filter_my_kills_only config) False \<and> ?pn \<noteq> []
                   \<and> (\<forall>k \<in> set kills. \<exists>name. killer_of w k = Inr name \<and> name \<noteq> ?pn))"
        by auto
      from c show ?thesis
      proof
        assume "kills = []"
        with True Some ev it ks show ?thesis
          by (simp add: load_highlights_from_events_def then_do_def)
      next
        assume f: "get_or (ge_filter_my_kills_only config) False \<and> ?pn \<noteq> []
                   \<and> (\<forall>k \<in> set kills. \<exists>name. killer_of w k = Inr name \<and> name \<noteq> ?pn)"
        then have "filter_by_killer w ?pn kills = Inr []"
          by (intro filter_by_killer_none) auto
        with True Some ev it ks f show ?thesis
          by (simp add: load_highlights_from_events_def then_do_def Let_def)
      qed
    qed
  qed
  moreover have "snd (detect_highlights w video_path config events_file)
            = snd (signal_pipeline w video_path config)"
    if "events_path = resolve_events_path w video_path config events_file"
    using none that by (simp add: detect_highlights_def Let_def bind_run_def emit_def)
  ultimately show ?thesis by blast
qed

text \<open>
  Claim C6 says that the event selector never raises on an event-log condition and answers a
  log without kill events with \<^verbatim>\<open>None\<close>. Only \<^verbatim>\<open>json.load\<close> is inside the
  \<^verbatim>\<open>try\<close>; the two lookups after it are not. An events file that holds the JSON text
  \<^verbatim>\<open>[]\<close> parses and has no kill event, and \<^verbatim>\<open>data.get\<close> raises
  \<^verbatim>\<open>AttributeError\<close> on it; on \<^verbatim>\<open>{"events": null}\<close> the iteration raises
  \<^verbatim>\<open>TypeError\<close>. Either exception leaves \<open>detect_highlights\<close> before any fallback.
\<close>

theorem selector_raises_on_parsable_log:
  "load_highlights_from_events empty_array_world ''/rec/game_events.json'' ''/rec/match.mp4''
     empty_config = Inl AttributeError
   \<and> detect_highlights empty_array_world ''/rec/match.mp4'' empty_config
        (Some ''/rec/game_events.json'') = ([], Inl AttributeError)
   \<and> load_highlights_from_events null_events_world ''/rec/game_events.json'' ''/rec/match.mp4''
        empty_config = Inl TypeError
   \<and> detect_highlights null_events_world ''/rec/match.mp4'' empty_config
        (Some ''/rec/game_events.json'') = ([], Inl TypeError)"
proof (intro conjI)
  have p1: "resolve_events_path empty_array_world ''/rec/match.mp4'' empty_config
              (Some ''/rec/game_events.json'') = ''/rec/game_events.json''"
    by (simp add: resolve_events_path_def or_str_def empty_array_world_def sample_world_def)
  have p2: "resolve_events_path null_events_world ''/rec/match.mp4'' empty_config
              (Some ''/rec/game_events.json'') = ''/rec/game_events.json''"
    by (simp add: resolve_events_path_def or_str_def null_events_world_def sample_world_def)
  have flags: "get_or (ge_enabled empty_config) True" "get_or (ge_prefer_events_over_ai empty_config) True"
    by (simp_all add: empty_config_def get_or_def)
  show a: "load_highlights_from_events empty_array_world ''/rec/game_events.json'' ''/rec/match.mp4''
     empty_config = Inl AttributeError"
    by (simp add: load_highlights_from_events_def empty_array_world_def sample_world_def
          dict_get_def then_do_def)
  show b: "load_highlights_from_events null_events_world ''/rec/game_events.json'' ''/rec/match.mp4''
        empty_config = Inl TypeError"
    by (simp add: load_highlights_from_events_def null_events_world_def sample_world_def
          dict_get_def py_iter_def then_do_def)
  show "detect_highlights empty_array_world ''/rec/match.mp4'' empty_config
        (Some ''/rec/game_events.json'') = ([], Inl AttributeError)"
    using flags by (simp add: detect_highlights_def Let_def p1 a)
  show "detect_highlights null_events_world ''/rec/match.mp4'' empty_config
        (Some ''/rec/game_events.json'') = ([], Inl TypeError)"
    using flags by (simp add: detect_highlights_def Let_def p2 b)
qed

lemma event_candidate_window:
  assumes "event_candidate data t0 offset padding clip_len k = Inr c"
  shows "end_sec c = start c + clip_len \<and> 0 \<le> start c"
  using assms
  by (auto simp: event_candidate_def then_do_def Let_def split: sum.splits option.splits if_splits)

lemma load_highlights_members:
  assumes "load_highlights_from_events w events_path video_path config = Inr (Some sel)"
    and "c \<in> set sel"
  shows "\<exists>data k. event_candidate data (get_or (getctime w video_path) 0)
                        (get_or (ge_recording_start_offset config) 0)
                        (get_or (clip_padding_before config) 3)
                        (get_or (clip_duration_seconds config) 30) k = Inr c"
proof -
  from assms(1) obtain data ks cs where
    cs: "traverse (event_candidate data (get_or (getctime w video_path) 0)
                        (get_or (ge_recording_start_offset config) 0)
                        (get_or (clip_padding_before config) 3)
                        (get_or (clip_duration_seconds config) 30)) ks = Inr cs"
    and sel: "sel = nms_loop (get_or (det_min_seconds_between_clips config) 120)
                  (get_or (det_max_clips_per_video config) 5) [] (sort_key start cs)"
    by (auto simp: load_highlights_from_events_def then_do_def Let_def
             split: if_splits option.splits sum.splits)
  from assms(2) nms_loop_subset[of _ _ "[]"] have "c \<in> set cs"
    unfolding sel by fastforce
  from traverse_members[OF cs this] show ?thesis by blast
qed

lemma select_peaks_members:
  assumes "select_peaks p duration combined = Inr sel" and "c \<in> set sel"
  shows "\<exists>i. clip_window (window_sec p) (padding_before p) (clip_duration p)
                (min_clip_length p) duration combined i = Some c"
proof -
  from assms(1) obtain th where
    sel: "sel = sort_key start (nms_loop (min_between p) (max_clips p) []
            (sort_key (\<lambda>x. - score x)
               (List.map_filter
                  (clip_window (window_sec p) (padding_before p) (clip_duration p)
                     (min_clip_length p) duration combined)
                  (peak_indices combined th (min_score p) (min_prominence p)))))"
    by (auto simp: select_peaks_def Let_def split: sum.splits)
  from assms(2) nms_loop_subset[of _ _ "[]"]
  have "c \<in> set (List.map_filter
                  (clip_window (window_sec p) (padding_before p) (clip_duration p)
                     (min_clip_length p) duration combined)
                  (peak_indices combined th (min_score p) (min_prominence p)))"
    unfolding sel by fastforce
  then show ?thesis by (auto simp: map_filter_def)
qed

lemma clip_window_clamped:
  assumes "clip_window ws pad len mcl duration combined i = Some c"
  shows "end_sec c \<le> duration"
  using assms by (auto simp: clip_window_def Let_def split: if_splits)

text \<open>A kill logged after the end of the video yields a clip beyond the video.\<close>

lemma late_kill_selection:
  "load_highlights_from_events (late_kill_world duration) ''/rec/game_events.json'' ''/rec/match.mp4''
     empty_config = Inr (Some [sample_clip (1 + max 0 duration)])"
  by (simp add: load_highlights_from_events_def late_kill_world_def sample_world_def
        sample_kill_def empty_config_def get_or_def or_str_def ascii_lower_def ascii_strip_def
        event_candidate_def dict_get_def py_iter_def then_do_def as_number_def
        sample_clip_def Let_def)

text \<open>
  Claim C10: every candidate of the event path ends exactly \<open>clip_duration\<close> after its
  start, and its start is not negative. The event path never looks at the length of the
  video: for every video duration there is a session whose event candidate starts and ends
  after the end of the video. The signal path clamps the end to the duration.
\<close>

theorem event_clip_not_clamped:
  "(\<forall>sel. load_highlights_from_events w events_path video_path config = Inr (Some sel) \<longrightarrow>
      (\<forall>c \<in> set sel. end_sec c = start c + get_or (clip_duration_seconds config) 30 \<and> 0 \<le> start c))
   \<and> (\<forall>duration. \<exists>w' c.
         fst (get_video_info w' ''/rec/match.mp4'') = duration
         \<and> load_highlights_from_events w' ''/rec/game_events.json'' ''/rec/match.mp4'' empty_config
             = Inr (Some [c])
         \<and> duration < start c \<and> duration < end_sec c)
   \<and> (\<forall>p duration combined sel. select_peaks p duration combined = Inr sel \<longrightarrow>
         (\<forall>c \<in> set sel. end_sec c \<le> duration))"
proof (intro conjI allI impI ballI)
  fix sel c
  assume "load_highlights_from_events w events_path video_path config = Inr (Some sel)" "c \<in> set sel"
  from load_highlights_members[OF this] event_candidate_window
  show "end_sec c = start c + get_or (clip_duration_seconds config) 30" by blast
next
  fix sel c
  assume "load_highlights_from_events w events_path video_path config = Inr (Some sel)" "c \<in> set sel"
  from load_highlights_members[OF this] event_candidate_window
  show "0 \<le> start c" by blast
next
  fix duration :: real
  have "fst (get_video_info (late_kill_world duration) ''/rec/match.mp4'') = duration"
    by (simp add: late_kill_world_def)
  moreover note late_kill_selection[of duration]
  moreover have "duration < start (sample_clip (1 + max 0 duration))"
    "duration < end_sec (sample_clip (1 + max 0 duration))"
    by (simp_all add: sample_clip_def)
  ultimately show "\<exists>w' c. fst (get_video_info w' ''/rec/match.mp4'') = duration
         \<and> load_highlights_from_events w' ''/rec/game_events.json'' ''/rec/match.mp4'' empty_config
             = Inr (Some [c])
         \<and> duration < start c \<and> duration < end_sec c"
    by blast
next
  fix p duration combined sel c
  assume "select_peaks p duration combined = Inr sel" "c \<in> set sel"
  from select_peaks_members[OF this] clip_window_clamped
  show "end_sec c \<le> duration" by blast
qed

theorem event_clip_not_clamped_witness:
  "load_highlights_from_events sample_world ''/rec/game_events.json'' ''/rec/match.mp4'' empty_config
     = Inr (Some [sample_clip 2, sample_clip 132, sample_clip 262])
   \<and> fst (get_video_info sample_world ''/rec/match.mp4'') = 12
   \<and> end_sec (sample_clip 132) = start (sample_clip 132) + 30
   \<and> 12 < start (sample_clip 132) \<and> 0 \<le> start (sample_clip 132)"
proof -
  note ev = sample_event_selection
  have m: "sample_clip 132 \<in> set [sample_clip 2, sample_clip 132, sample_clip 262]" by simp
  have d: "get_or (clip_duration_seconds empty_config) 30 = (30::real)"
    by (simp add: empty_config_def get_or_def)
  from event_clip_not_clamped[of sample_world "''/rec/game_events.json''" "''/rec/match.mp4''" empty_config]
    ev m
  have "end_sec (sample_clip 132) = start (sample_clip 132) + get_or (clip_duration_seconds empty_config) 30
        \<and> 0 \<le> start (sample_clip 132)"
    by blast
  then show ?thesis using ev unfolding d by (simp add: sample_world_def sample_clip_def)
qed

subsection \<open>Orchestrator\<close>

text \<open>The signal pipeline on the sample session finds no peak.\<close>

lemma sample_audio_energy: "compute_audio_energy [1/10, 9/10, 1/10] 4 = Inr [11/30]"
  by (simp add: compute_audio_energy_def py_int_def slice_def np_mean_def Let_def)

lemma sample_select_peaks: "select_peaks (selection_of empty_config) 12 [0, 0, 0] = Inr []"
  by (simp add: select_peaks_def selection_of_def empty_config_def get_or_def percentile_def
        peak_indices_def is_peak_def List.map_filter_simps Let_def)

lemma sample_signal_pipeline:
  "signal_pipeline sample_world ''/rec/match.mp4'' (empty_config\<lparr>ge_prefer_events_over_ai := Some False\<rparr>)
     = ([RunFFprobe ''/rec/match.mp4'', Print ''  Extracting audio...'', RunFFmpeg ''/rec/match.mp4'',
         Print ''  Analyzing motion...'', OpenVideo ''/rec/match.mp4''], Inr [])"
proof -
  have sel: "selection_of (empty_config\<lparr>ge_prefer_events_over_ai := Some False\<rparr>) = selection_of empty_config"
    by (simp add: selection_of_def empty_config_def)
  have ws: "window_sec (selection_of empty_config) = 4"
    by (simp add: selection_of_def empty_config_def get_or_def)
  have w: "get_or (det_audio_weight (empty_config\<lparr>ge_prefer_events_over_ai := Some False\<rparr>)) (1/2) = (1/2 :: real)"
    "get_or (det_motion_weight (empty_config\<lparr>ge_prefer_events_over_ai := Some False\<rparr>)) (1/2) = (1/2 :: real)"
    by (simp_all add: empty_config_def get_or_def)
  have n1: "normalize_scores [11/30] = [0]" "normalize_scores [0] = [0]"
    by (simp_all add: normalize_scores_def np_max_def np_min_def)
  have fl: "py_int 3 = 3" by (simp add: py_int_def)
  show ?thesis
    unfolding signal_pipeline_def Let_def sel ws w
    by (simp add: sample_world_def bind_run_def lift_def emit_def sample_audio_energy n1 fl
          pad_edge_def sample_select_peaks numeral_2_eq_2 numeral_3_eq_3)
qed

text \<open>
  Claim C1 says that with game-events detection enabled a non-empty result of the event
  selector is always what \<open>detect_highlights\<close> returns. The code asks the event selector
  only if \<^verbatim>\<open>prefer_events_over_ai\<close> is set as well: in the sample session with that key
  switched off the selector has three candidates to offer, yet the signal pipeline runs and
  its empty result is returned.
\<close>

theorem prefer_events_off_counterexample:
  "get_or (ge_enabled (empty_config\<lparr>ge_prefer_events_over_ai := Some False\<rparr>)) True
   \<and> load_highlights_from_events sample_world
        (resolve_events_path sample_world ''/rec/match.mp4''
           (empty_config\<lparr>ge_prefer_events_over_ai := Some False\<rparr>) (Some ''/rec/game_events.json''))
        ''/rec/match.mp4'' (empty_config\<lparr>ge_prefer_events_over_ai := Some False\<rparr>)
      = Inr (Some [sample_clip 2, sample_clip 132, sample_clip 262])
   \<and> detect_highlights sample_world ''/rec/match.mp4''
        (empty_config\<lparr>ge_prefer_events_over_ai := Some False\<rparr>) (Some ''/rec/game_events.json'')
      = ([RunFFprobe ''/rec/match.mp4'', Print ''  Extracting audio...'', RunFFmpeg ''/rec/match.mp4'',
          Print ''  Analyzing motion...'', OpenVideo ''/rec/match.mp4''], Inr [])"
proof (intro conjI)
  let ?cfg = "empty_config\<lparr>ge_prefer_events_over_ai := Some False\<rparr>"
  show "get_or (ge_enabled ?cfg) True" by (simp add: empty_config_def get_or_def)
  have p: "resolve_events_path sample_world ''/rec/match.mp4'' ?cfg (Some ''/rec/game_events.json'')
             = ''/rec/game_events.json''"
    by (simp add: resolve_events_path_def or_str_def sample_world_def)
  show "load_highlights_from_events sample_world
        (resolve_events_path sample_world ''/rec/match.mp4'' ?cfg (Some ''/rec/game_events.json''))
        ''/rec/match.mp4'' ?cfg
      = Inr (Some [sample_clip 2, sample_clip 132, sample_clip 262])"
    unfolding p
    by (simp add: load_highlights_from_events_def sample_world_def sample_log_def sample_kill_def
        empty_config_def get_or_def or_str_def ascii_lower_def ascii_strip_def event_candidate_def
        dict_get_def py_iter_def then_do_def as_number_def sample_clip_def Let_def)
  have "detect_highlights sample_world ''/rec/match.mp4'' ?cfg (Some ''/rec/game_events.json'')
          = signal_pipeline sample_world ''/rec/match.mp4'' ?cfg"
    by (simp add: detect_highlights_def empty_config_def get_or_def)
  then show "detect_highlights sample_world ''/rec/match.mp4'' ?cfg (Some ''/rec/game_events.json'')
      = ([RunFFprobe ''/rec/match.mp4'', Print ''  Extracting audio...'', RunFFmpeg ''/rec/match.mp4'',
          Print ''  Analyzing motion...'', OpenVideo ''/rec/match.mp4''], Inr [])"
    by (simp only: sample_signal_pipeline)
qed

text \<open>
  Claim C1, amended: when game-events detection is enabled and \<^verbatim>\<open>prefer_events_over_ai\<close>
  is set (both are the default) and the event selector returns a non-empty list, then
  \<open>detect_highlights\<close> returns exactly that list and its only effect is one printed line:
  no step of the signal pipeline runs. When a key is switched off, or the selector returns
  \<^verbatim>\<open>None\<close> or an empty list, it returns what the signal pipeline returns, with the
  pipeline's effects after at most one printed line. (An exception of the selector is passed
  on.)
\<close>

theorem detect_highlights_short_circuit:
  "(get_or (ge_enabled config) True \<and> get_or (ge_prefer_events_over_ai config) True
      \<and> load_highlights_from_events w (resolve_events_path w video_path config events_file)
            video_path config = Inr (Some hs)
      \<and> hs \<noteq> []
    \<longrightarrow> detect_highlights w video_path config events_file
          = ([Print ''  Using game events (kill timestamps from Live Client Data API)''], Inr hs))
   \<and> (\<not> get_or (ge_enabled config) True \<or> \<not> get_or (ge_prefer_events_over_ai config) True
        \<or> load_highlights_from_events w (resolve_events_path w video_path config events_file)
               video_path config = Inr None
        \<or> load_highlights_from_events w (resolve_events_path w video_path config events_file)
               video_path config = Inr (Some [])
    \<longrightarrow> snd (detect_highlights w video_path config events_file)
            = snd (signal_pipeline w video_path config)
        \<and> (\<exists>line. fst (detect_highlights w video_path config events_file)
                      = fst (signal_pipeline w video_path config)
                  \<or> fst (detect_highlights w video_path config events_file)
                      = Print line # fst (signal_pipeline w video_path config)))
   \<and> (get_or (ge_enabled config) True \<and> get_or (ge_prefer_events_over_ai config) True
      \<and> load_highlights_from_events w (resolve_events_path w video_path config events_file)
            video_path config = Inl e
    \<longrightarrow> detect_highlights w video_path config events_file = ([], Inl e))"
proof (intro conjI impI)
  assume a: "get_or (ge_enabled config) True \<and> get_or (ge_prefer_events_over_ai config) True
      \<and> load_highlights_from_events w (resolve_events_path w video_path config events_file)
            video_path config = Inr (Some hs)
      \<and> hs \<noteq> []"
  then obtain h t where "hs = h # t" by (cases hs) auto
  with a show "detect_highlights w video_path config events_file
          = ([Print ''  Using game events (kill timestamps from Live Client Data API)''], Inr hs)"
    by (simp add: detect_highlights_def Let_def)
next
  assume n: "\<not> get_or (ge_enabled config) True \<or> \<not> get_or (ge_prefer_events_over_ai config) True
        \<or> load_highlights_from_events w (resolve_events_path w video_path config events_file)
               video_path config = Inr None
        \<or> load_highlights_from_events w (resolve_events_path w video_path config events_file)
               video_path config = Inr (Some [])"
  then show "snd (detect_highlights w video_path config events_file)
            = snd (signal_pipeline w video_path config)"
    by (auto simp: detect_highlights_def Let_def bind_run_def emit_def)
next
  assume n: "\<not> get_or (ge_enabled config) True \<or> \<not> get_or (ge_prefer_events_over_ai config) True
        \<or> load_highlights_from_events w (resolve_events_path w video_path config events_file)
               video_path config = Inr None
        \<or> load_highlights_from_events w (resolve_events_path w video_path config events_file)
               video_path config = Inr (Some [])"
  then show "\<exists>line. fst (detect_highlights w video_path config events_file)
                      = fst (signal_pipeline w video_path config)
                  \<or> fst (detect_highlights w video_path config events_file)
                      = Print line # fst (signal_pipeline w video_path config)"
    by (auto simp: detect_highlights_def Let_def bind_run_def emit_def)
next
  assume "get_or (ge_enabled config) True \<and> get_or (ge_prefer_events_over_ai config) True
      \<and> load_highlights_from_events w (resolve_events_path w video_path config events_file)
            video_path config = Inl e"
  then show "detect_highlights w video_path config events_file = ([], Inl e)"
    by (simp add: detect_highlights_def Let_def)
qed

theorem detect_highlights_short_circuit_witness:
  "detect_highlights sample_world ''/rec/match.mp4'' empty_config (Some ''/rec/game_events.json'')
     = ([Print ''  Using game events (kill timestamps from Live Client Data API)''],
        Inr [sample_clip 2, sample_clip 132, sample_clip 262])"
proof -
  have p: "resolve_events_path sample_world ''/rec/match.mp4'' empty_config (Some ''/rec/game_events.json'')
             = ''/rec/game_events.json''"
    by (simp add: resolve_events_path_def or_str_def sample_world_def)
  have f: "get_or (ge_enabled empty_config) True" "get_or (ge_prefer_events_over_ai empty_config) True"
    by (simp_all add: empty_config_def get_or_def)
  have ne: "[sample_clip 2, sample_clip 132, sample_clip 262] \<noteq> []" by simp
  from detect_highlights_short_circuit[of empty_config sample_world "''/rec/match.mp4''"
      "Some ''/rec/game_events.json''" "[sample_clip 2, sample_clip 132, sample_clip 262]" AttributeError]
    f ne sample_event_selection
  show ?thesis unfolding p by blast
qed

subsection \<open>Rescaling the combined series\<close>

text \<open>
  Sorting with a key commutes with a map that preserves the order of the keys; this covers
  the sorted array inside the percentile and both sorts of the selection.
\<close>

lemma insort_key_map_same_order:
  assumes "\<And>a b. f (h a) \<le> f (h b) \<longleftrightarrow> g a \<le> g b"
  shows "insort_key f (h x) (map h xs) = map h (insort_key g x xs)"
  by (induction xs) (simp_all add: assms)

lemma sort_key_map_same_order:
  assumes "\<And>a b. f (h a) \<le> f (h b) \<longleftrightarrow> g a \<le> g b"
  shows "sort_key f (map h xs) = map h (sort_key g xs)"
  by (induction xs) (simp_all add: insort_key_map_same_order[of f h g, OF assms])

lemma sort_scaled:
  fixes c :: real
  assumes "0 < c"
  shows "sort (map ((*) c) a) = map ((*) c) (sort a)"
  by (rule sort_key_map_same_order) (simp add: assms)

text \<open>The percentile, the peak test and the clip windows under a positive factor.\<close>

lemma percentile_scaled:
  assumes "0 < c"
  shows "percentile (map ((*) c) a) q = map_sum id ((*) c) (percentile a q)"
proof (cases "q < 0 \<or> 100 < q \<or> a = []")
  case True
  then show ?thesis by (auto simp: percentile_def)
next
  case False
  let ?pos = "real (length a - 1) * (q / 100)"
  let ?lo = "nat \<lfloor>?pos\<rfloor>"
  let ?hi = "min (?lo + 1) (length a - 1)"
  from False have q: "0 \<le> q" "q \<le> 100" and n: "0 < length a" by auto
  have "?pos \<le> real (length a - 1)"
    using q mult_left_mono[of "q / 100" 1 "real (length a - 1)"] by simp
  then have "\<lfloor>?pos\<rfloor> \<le> int (length a - 1)" by (simp add: floor_le_iff)
  then have "?lo \<le> length a - 1" by (simp only: nat_le_iff)
  then have lo: "?lo < length (sort a)" unfolding length_sort using n by linarith
  have hi: "?hi < length (sort a)" unfolding length_sort using n by linarith
  have e: "map ((*) c) (sort a) ! ?lo = c * (sort a ! ?lo)"
    "map ((*) c) (sort a) ! ?hi = c * (sort a ! ?hi)"
    using lo hi by (simp_all only: nth_map)
  have alg: "c * x + (c * y - c * x) * t = c * (x + (y - x) * t)" for x y t :: real
    by (simp add: algebra_simps)
  have "percentile (map ((*) c) a) q
          = Inr (map ((*) c) (sort a) ! ?lo
                 + (map ((*) c) (sort a) ! ?hi - map ((*) c) (sort a) ! ?lo) * (?pos - real ?lo))"
    using False by (simp add: percentile_def Let_def sort_scaled[OF assms])
  also have "\<dots> = Inr (c * (sort a ! ?lo + (sort a ! ?hi - sort a ! ?lo) * (?pos - real ?lo)))"
    by (simp only: e alg)
  also have "\<dots> = map_sum id ((*) c) (percentile a q)"
    using False by (simp add: percentile_def Let_def)
  finally show ?thesis .
qed

lemma is_peak_scaled:
  assumes "0 < c" and "i + 1 < length combined"
  shows "is_peak (map ((*) c) combined) (c * th) (c * ms) (c * mp) i = is_peak combined th ms mp i"
proof -
  have i: "i < length combined" "i - 1 < length combined" using assms(2) by simp_all
  have m: "min (c * x) (c * y) = c * min x y" for x y :: real
    using assms(1) by (simp add: min_def)
  have d: "c * mp \<le> c * x - c * y \<longleftrightarrow> mp \<le> x - y" for x y :: real
    using assms(1) by (simp add: right_diff_distrib[symmetric])
  show ?thesis
    unfolding is_peak_iff using assms i by (simp add: m d)
qed

lemma peak_indices_scaled:
  assumes "0 < c"
  shows "peak_indices (map ((*) c) combined) (c * th) (c * ms) (c * mp) = peak_indices combined th ms mp"
  unfolding peak_indices_def
  by (rule filter_cong) (auto simp: is_peak_scaled[OF assms])

lemma peak_indices_bound: "i \<in> set (peak_indices combined th ms mp) \<Longrightarrow> i < length combined"
  by (auto simp: peak_indices_def)

lemma clip_window_scaled:
  assumes "i < length combined"
  shows "clip_window ws pad len mcl duration (map ((*) c) combined) i
           = map_option (\<lambda>x. x\<lparr>score := c * score x\<rparr>) (clip_window ws pad len mcl duration combined i)"
  using assms by (simp add: clip_window_def Let_def)

lemma map_filter_map_option:
  assumes "\<And>x. x \<in> set xs \<Longrightarrow> f x = map_option h (g x)"
  shows "List.map_filter f xs = map h (List.map_filter g xs)"
  using assms by (induction xs) (auto simp: List.map_filter_simps split: option.splits)

lemma nms_loop_scaled:
  "nms_loop gap limit (map (\<lambda>x. x\<lparr>score := c * score x\<rparr>) selected) (map (\<lambda>x. x\<lparr>score := c * score x\<rparr>) cs)
     = map (\<lambda>x. x\<lparr>score := c * score x\<rparr>) (nms_loop gap limit selected cs)"
proof (induction cs arbitrary: selected)
  case Nil
  then show ?case by simp
next
  case (Cons a cs)
  have ex: "list_ex (\<lambda>s. \<bar>start (a\<lparr>score := c * score a\<rparr>) - start s\<bar> < gap) (map (\<lambda>x. x\<lparr>score := c * score x\<rparr>) selected)
             = list_ex (\<lambda>s. \<bar>start a - start s\<bar> < gap) selected"
    by (simp add: list_ex_iff)
  from Cons.IH[of selected] Cons.IH[of "selected @ [a]"] show ?case
    using ex by simp
qed

lemma select_peaks_scaled:
  assumes "0 < c"
  shows "select_peaks (p\<lparr>min_score := c * min_score p, min_prominence := c * min_prominence p\<rparr>)
           duration (map ((*) c) combined)
         = map_sum id (map (\<lambda>x. x\<lparr>score := c * score x\<rparr>)) (select_peaks p duration combined)"
proof (cases "percentile combined (100 - sensitivity p * 40)")
  case (Inl e)
  then show ?thesis
    by (simp add: select_peaks_def percentile_scaled[OF assms])
next
  case (Inr th)
  let ?h = "\<lambda>x. x\<lparr>score := c * score x\<rparr>"
  let ?cw = "clip_window (window_sec p) (padding_before p) (clip_duration p) (min_clip_length p) duration"
  let ?pk = "peak_indices combined th (min_score p) (min_prominence p)"
  have cands: "List.map_filter (?cw (map ((*) c) combined)) ?pk = map ?h (List.map_filter (?cw combined) ?pk)"
    by (rule map_filter_map_option) (simp add: clip_window_scaled peak_indices_bound)
  have s1: "sort_key (\<lambda>x. - score x) (map ?h xs) = map ?h (sort_key (\<lambda>x. - score x) xs)" for xs
    by (rule sort_key_map_same_order) (simp add: assms)
  have s2: "sort_key start (map ?h xs) = map ?h (sort_key start xs)" for xs
    by (rule sort_key_map_same_order) simp
  have nms: "nms_loop gap limit [] (map ?h cs) = map ?h (nms_loop gap limit [] cs)" for gap limit cs
    using nms_loop_scaled[of gap limit c "[]" cs] by simp
  show ?thesis
    using Inr
    by (simp add: select_peaks_def percentile_scaled[OF assms] peak_indices_scaled[OF assms]
          cands s1 s2 nms Let_def)
qed


text \<open>A series with one peak, under the default parameters and a video of 100 seconds.\<close>

lemma sample_percentile_peak: "percentile [0, 1, 0] 80 = Inr (3/5)"
  by (simp add: percentile_def Let_def)

lemma sample_peak_selection:
  "select_peaks (selection_of empty_config) 100 [0, 1, 0]
     = Inr [\<lparr>start = 1, end_sec = 31, score = 1, source = None\<rparr>]"
  by (simp add: select_peaks_def selection_of_def empty_config_def get_or_def sample_percentile_peak
        peak_indices_def is_peak_def clip_window_def List.map_filter_simps Let_def)

text \<open>
  Claim C7 says that peak selection on \<open>c * combined\<close> picks the same candidates as on
  \<open>combined\<close> for every positive \<open>c\<close>. Only the percentile threshold follows the series;
  \<open>min_score\<close> and \<open>min_prominence\<close> are absolute. Under the default parameters the
  series \<open>[0.8, 1, 0.8]\<close> has its peak selected and half that series has none, whether
  \<open>min_score\<close> is left alone or halved as well: the prominence \<open>0.1\<close> of the halved
  peak is below \<open>min_prominence\<close>.
\<close>

theorem rescaled_series_counterexample:
  "select_peaks (selection_of empty_config) 100 [4/5, 1, 4/5]
     = Inr [\<lparr>start = 1, end_sec = 31, score = 1, source = None\<rparr>]
   \<and> select_peaks (selection_of empty_config) 100 (map ((*) (1/2)) [4/5, 1, 4/5]) = Inr []
   \<and> select_peaks ((selection_of empty_config)\<lparr>min_score := (1/2) * min_score (selection_of empty_config)\<rparr>)
         100 (map ((*) (1/2)) [4/5, 1, 4/5]) = Inr []"
proof (intro conjI)
  have whole: "percentile [4/5, 1, 4/5] 80 = Inr (23/25)"
    by (simp add: percentile_def Let_def)
  have half: "percentile [2/5, 1/2, 2/5] 80 = Inr (23/50)"
    by (simp add: percentile_def Let_def)
  show "select_peaks (selection_of empty_config) 100 [4/5, 1, 4/5]
     = Inr [\<lparr>start = 1, end_sec = 31, score = 1, source = None\<rparr>]"
    by (simp add: select_peaks_def selection_of_def empty_config_def get_or_def whole
        peak_indices_def is_peak_def clip_window_def List.map_filter_simps Let_def)
  show "select_peaks (selection_of empty_config) 100 (map ((*) (1/2)) [4/5, 1, 4/5]) = Inr []"
    by (simp add: select_peaks_def selection_of_def empty_config_def get_or_def half
        peak_indices_def is_peak_def clip_window_def List.map_filter_simps Let_def)
  show "select_peaks ((selection_of empty_config)\<lparr>min_score := (1/2) * min_score (selection_of empty_config)\<rparr>)
         100 (map ((*) (1/2)) [4/5, 1, 4/5]) = Inr []"
    by (simp add: select_peaks_def selection_of_def empty_config_def get_or_def half
        peak_indices_def is_peak_def clip_window_def List.map_filter_simps Let_def)
qed

text \<open>
  The same on a series that the pipeline can produce for a video of 32 seconds and the default
  window of four seconds: eight windows, audio and motion both normalised to this series.
\<close>

lemma rescaled_padded_series:
  "select_peaks (selection_of empty_config) 32 [4/5, 1, 4/5, 0, 0, 0, 0, 0]
     = Inr [\<lparr>start = 1, end_sec = 31, score = 1, source = None\<rparr>]
   \<and> select_peaks (selection_of empty_config) 32 (map ((*) (1/2)) [4/5, 1, 4/5, 0, 0, 0, 0, 0]) = Inr []"
proof
  have whole: "percentile [4/5, 1, 4/5, 0, 0, 0, 0, 0] 80 = Inr (4/5)"
    by (simp add: percentile_def Let_def)
  have half: "percentile [2/5, 1/2, 2/5, 0, 0, 0, 0, 0] 80 = Inr (2/5)"
    by (simp add: percentile_def Let_def)
  have idx: "[1 ..< 7] = [1, 2, 3, 4, 5, 6 :: nat]" by (simp add: upt_rec)
  show "select_peaks (selection_of empty_config) 32 [4/5, 1, 4/5, 0, 0, 0, 0, 0]
     = Inr [\<lparr>start = 1, end_sec = 31, score = 1, source = None\<rparr>]"
    by (simp add: select_peaks_def selection_of_def empty_config_def get_or_def whole idx
        peak_indices_def is_peak_def clip_window_def List.map_filter_simps Let_def)
  show "select_peaks (selection_of empty_config) 32 (map ((*) (1/2)) [4/5, 1, 4/5, 0, 0, 0, 0, 0]) = Inr []"
    by (simp add: select_peaks_def selection_of_def empty_config_def get_or_def half idx
        peak_indices_def is_peak_def clip_window_def List.map_filter_simps Let_def)
qed

text \<open>
  Claim C7, amended: for every positive \<open>c\<close>, peak selection on \<open>c * combined\<close> with
  \<open>min_score\<close> and \<open>min_prominence\<close> multiplied by \<open>c\<close> as well returns the clip
  windows that it returns on \<open>combined\<close>, in the same order, with the scores multiplied
  by \<open>c\<close> (an exception of the percentile is the same on both sides). Rescaling
  \<open>min_prominence\<close> alone changes the selection.
\<close>

theorem select_peaks_rescaled:
  "(0 < c \<longrightarrow>
      select_peaks (p\<lparr>min_score := c * min_score p, min_prominence := c * min_prominence p\<rparr>)
        duration (map ((*) c) combined)
      = map_sum id (map (\<lambda>x. x\<lparr>score := c * score x\<rparr>)) (select_peaks p duration combined))
   \<and> select_peaks ((selection_of empty_config)\<lparr>min_prominence := 10 * min_prominence (selection_of empty_config)\<rparr>)
         100 [0, 1, 0]
       \<noteq> select_peaks (selection_of empty_config) 100 [0, 1, 0]"
proof (intro conjI impI)
  assume "0 < c"
  then show "select_peaks (p\<lparr>min_score := c * min_score p, min_prominence := c * min_prominence p\<rparr>)
        duration (map ((*) c) combined)
      = map_sum id (map (\<lambda>x. x\<lparr>score := c * score x\<rparr>)) (select_peaks p duration combined)"
    by (rule select_peaks_scaled)
next
  have "select_peaks ((selection_of empty_config)\<lparr>min_prominence := 10 * min_prominence (selection_of empty_config)\<rparr>)
         100 [0, 1, 0] = Inr []"
    by (simp add: select_peaks_def selection_of_def empty_config_def get_or_def sample_percentile_peak
        peak_indices_def is_peak_def clip_window_def List.map_filter_simps Let_def)
  then show "select_peaks ((selection_of empty_config)\<lparr>min_prominence := 10 * min_prominence (selection_of empty_config)\<rparr>)
         100 [0, 1, 0]
       \<noteq> select_peaks (selection_of empty_config) 100 [0, 1, 0]"
    by (simp add: sample_peak_selection)
qed

theorem select_peaks_rescaled_witness:
  "select_peaks ((selection_of empty_config)\<lparr>min_score := 2 * min_score (selection_of empty_config),
         min_prominence := 2 * min_prominence (selection_of empty_config)\<rparr>) 100 (map ((*) 2) [0, 1, 0])
     = Inr [\<lparr>start = 1, end_sec = 31, score = 2, source = None\<rparr>]"
proof -
  have pos: "(0::real) < 2" by simp
  from select_peaks_rescaled[of 2 "selection_of empty_config" 100 "[0, 1, 0]"] pos
  have "select_peaks ((selection_of empty_config)\<lparr>min_score := 2 * min_score (selection_of empty_config),
         min_prominence := 2 * min_prominence (selection_of empty_config)\<rparr>) 100 (map ((*) 2) [0, 1, 0])
     = map_sum id (map (\<lambda>x. x\<lparr>score := 2 * score x\<rparr>)) (select_peaks (selection_of empty_config) 100 [0, 1, 0])"
    by blast
  then show ?thesis by (simp only: sample_peak_selection) simp
qed

end
